theory Spec2Isabelle
  imports Main
begin

section \<open>Python values used by the pipeline\<close>

text \<open>
  The three source files (\<^verbatim>\<open>teste.py\<close>, \<^verbatim>\<open>rag.py\<close>, \<^verbatim>\<open>app.py\<close>) are Python.
  A Python \<^verbatim>\<open>str\<close> is a sequence of code points; here a string is a \<^typ>\<open>string\<close>
  whose characters are the code points 0..255 (Latin-1), which holds every ASCII
  character and every accented letter of the Portuguese literals of the source
  (\<^verbatim>\<open>len\<close> counts code points, as \<^const>\<open>length\<close> does here).
  \<^verbatim>\<open>ValueError\<close> is the one exception that \<^verbatim>\<open>datetime.strptime\<close>, \<^verbatim>\<open>datetime(...)\<close>
  and \<^verbatim>\<open>range(...)\<close> raise on arguments of the right type.
\<close>

datatype py_error = ValueError

subsection \<open>Character classes\<close>

text \<open>\<^verbatim>\<open>str.isspace\<close>, which is also the class \<^verbatim>\<open>\s\<close> of \<^verbatim>\<open>re\<close> and what
  \<^verbatim>\<open>str.strip\<close> removes, on code points below 256.\<close>

definition py_isspace :: "char \<Rightarrow> bool" where
  "py_isspace c = ((of_char c :: nat) \<in> set [9, 10, 11, 12, 13, 28, 29, 30, 31, 32, 133, 160])"

text \<open>The class \<^verbatim>\<open>\d\<close> (decimal digits), on code points below 256.\<close>

definition py_isdigit :: "char \<Rightarrow> bool" where
  "py_isdigit c = (48 \<le> (of_char c :: nat) \<and> (of_char c :: nat) \<le> 57)"

text \<open>The class \<^verbatim>\<open>\w\<close> (alphanumeric or underscore), on code points below 256.\<close>

definition py_isword :: "char \<Rightarrow> bool" where
  "py_isword c =
     (let n = (of_char c :: nat)
      in (48 \<le> n \<and> n \<le> 57) \<or> (65 \<le> n \<and> n \<le> 90) \<or> n = 95 \<or> (97 \<le> n \<and> n \<le> 122)
         \<or> n \<in> set [170, 178, 179, 181, 185, 186, 188, 189, 190]
         \<or> (192 \<le> n \<and> n \<le> 214) \<or> (216 \<le> n \<and> n \<le> 246) \<or> (248 \<le> n \<and> n \<le> 255))"

text \<open>\<^verbatim>\<open>str.lower\<close> on one code point below 256: A-Z and the accented capitals
  (0xC0-0xDE without the multiplication sign 0xD7) move up by 32.\<close>

definition py_lower_char :: "char \<Rightarrow> char" where
  "py_lower_char c =
     (let n = (of_char c :: nat)
      in if (65 \<le> n \<and> n \<le> 90) \<or> (192 \<le> n \<and> n \<le> 222 \<and> n \<noteq> 215) then char_of (n + 32) else c)"

definition py_lower :: "string \<Rightarrow> string" where
  "py_lower s = map py_lower_char s"

definition py_strip :: "string \<Rightarrow> string" where
  "py_strip s = rev (dropWhile py_isspace (rev (dropWhile py_isspace s)))"

definition py_startswith :: "string \<Rightarrow> string \<Rightarrow> bool" where
  "py_startswith s p = (take (length p) s = p)"

text \<open>\<^verbatim>\<open>sub in s\<close> for strings.\<close>

fun py_contains :: "string \<Rightarrow> string \<Rightarrow> bool" where
  "py_contains sub [] = (sub = [])"
| "py_contains sub (c # cs) = (py_startswith (c # cs) sub \<or> py_contains sub cs)"

text \<open>\<^verbatim>\<open>sep.join(xs)\<close>.\<close>

fun py_join :: "string \<Rightarrow> string list \<Rightarrow> string" where
  "py_join sep [] = []"
| "py_join sep [x] = x"
| "py_join sep (x # y # ys) = x @ sep @ py_join sep (y # ys)"

text \<open>\<^verbatim>\<open>int(s)\<close> on the digit strings the patterns below capture; \<^verbatim>\<open>int\<close> skips
  surrounding white space (the day pattern of \<^verbatim>\<open>strptime\<close> may capture a leading
  blank).\<close>

definition py_int :: "string \<Rightarrow> nat" where
  "py_int s = foldl (\<lambda>a c. 10 * a + (of_char c - 48)) 0 (py_strip s)"

text \<open>The normalized message dict built by \<^verbatim>\<open>create_whatsapp_database\<close>
  (\<^verbatim>\<open>teste.py\<close>, lines 285-291).\<close>

record msg =
  author :: string
  message :: string
  original_message :: string
  timestamp :: string
  index :: nat

text \<open>Python's \<^verbatim>\<open>xs[a:b]\<close> and \<^verbatim>\<open>xs[a:]\<close> for integers \<open>a\<close>, \<open>b\<close>: a negative bound
  counts from the end, and both bounds are clipped to the list.\<close>

definition py_clip :: "nat \<Rightarrow> int \<Rightarrow> nat" where
  "py_clip n a = (if a < 0 then nat (max 0 (int n + a)) else min (nat a) n)"

definition py_slice :: "'a list \<Rightarrow> int \<Rightarrow> int \<Rightarrow> 'a list" where
  "py_slice xs a b = take (py_clip (length xs) b - py_clip (length xs) a) (drop (py_clip (length xs) a) xs)"

definition py_slice_from :: "'a list \<Rightarrow> int \<Rightarrow> 'a list" where
  "py_slice_from xs a = drop (py_clip (length xs) a) xs"

section \<open>Timestamps\<close>

subsection \<open>\<^verbatim>\<open>datetime\<close>\<close>

text \<open>A naive \<^verbatim>\<open>datetime\<close>; the constructor raises \<^verbatim>\<open>ValueError\<close> outside the
  ranges below. \<open>dt_micros\<close> is the number of microseconds since the start of
  the proleptic Gregorian calendar, computed as \<^verbatim>\<open>toordinal\<close> does.\<close>

record datetime =
  year :: nat
  month :: nat
  day :: nat
  hour :: nat
  minute :: nat
  second :: nat
  microsecond :: nat

definition is_leap :: "nat \<Rightarrow> bool" where
  "is_leap y = (y mod 4 = 0 \<and> (y mod 100 \<noteq> 0 \<or> y mod 400 = 0))"

definition days_in_month :: "nat \<Rightarrow> nat \<Rightarrow> nat" where
  "days_in_month y m =
     (if m = 2 then (if is_leap y then 29 else 28)
      else if m \<in> set [4, 6, 9, 11] then 30 else 31)"

definition datetime_new :: "nat \<Rightarrow> nat \<Rightarrow> nat \<Rightarrow> nat \<Rightarrow> nat \<Rightarrow> nat \<Rightarrow> nat \<Rightarrow> py_error + datetime" where
  "datetime_new y m d H M S us =
     (if 1 \<le> y \<and> y \<le> 9999 \<and> 1 \<le> m \<and> m \<le> 12 \<and> 1 \<le> d \<and> d \<le> days_in_month y m
         \<and> H \<le> 23 \<and> M \<le> 59 \<and> S \<le> 59 \<and> us \<le> 999999
      then Inr \<lparr>year = y, month = m, day = d, hour = H, minute = M, second = S, microsecond = us\<rparr>
      else Inl ValueError)"

definition days_before_year :: "nat \<Rightarrow> int" where
  "days_before_year y =
     (let p = int y - 1 in p * 365 + p div 4 - p div 100 + p div 400)"

definition days_before_month :: "nat \<Rightarrow> nat \<Rightarrow> int" where
  "days_before_month y m = int (sum_list (map (days_in_month y) [1..<m]))"

definition toordinal :: "datetime \<Rightarrow> int" where
  "toordinal t = days_before_year (year t) + days_before_month (year t) (month t) + int (day t)"

definition dt_micros :: "datetime \<Rightarrow> int" where
  "dt_micros t =
     (((toordinal t * 24 + int (hour t)) * 60 + int (minute t)) * 60 + int (second t)) * 1000000
       + int (microsecond t)"

text \<open>
  \<^verbatim>\<open>(current_time - last_time).total_seconds() / 3600 > 24\<close>. The difference of two
  datetimes is a whole number of microseconds; \<^verbatim>\<open>total_seconds\<close> and the division
  are correctly rounded and monotone, 86400 / 3600 is exactly 24 and the next
  representable gap (one microsecond more) rounds above 24, so the comparison of
  the floats is the comparison of the integers below.
\<close>

definition gap_over_24h :: "datetime \<Rightarrow> datetime \<Rightarrow> bool" where
  "gap_over_24h current_time last_time =
     (dt_micros current_time - dt_micros last_time > 24 * 3600 * 1000000)"

subsection \<open>The regular expressions of \<^verbatim>\<open>strptime\<close> and of the fallback\<close>

text \<open>
  Every pattern used for timestamps is a sequence of pieces; a piece is either a
  choice between fixed-length sequences of character classes, tried in the order
  written (\<^verbatim>\<open>3[0-1]|[1-2]\d|0[1-9]|[1-9]| [1-9]\<close>, and \<^verbatim>\<open>\d{1,2}\<close> as the choice
  of two digits, then one), or a greedy star of one class (\<^verbatim>\<open>.*\<close>, \<^verbatim>\<open>\s*\<close>; longest
  first), or the anchor \<^verbatim>\<open>$\<close>, which holds at the end of the string and before a
  final newline. A piece carries the name of its group (empty when it captures
  nothing). \<open>rx_run\<close> lists every way the pattern
  matches a prefix of the string, in the order in which the backtracking matcher
  of \<^verbatim>\<open>re\<close> tries them: its head is the match \<^verbatim>\<open>re\<close> reports.
\<close>

datatype piece = Choice "(char \<Rightarrow> bool) list list" | Star "char \<Rightarrow> bool" | Dollar

type_synonym pattern = "(string \<times> piece) list"
type_synonym groups = "(string \<times> string) list"

fun match_classes :: "(char \<Rightarrow> bool) list \<Rightarrow> string \<Rightarrow> (string \<times> string) option" where
  "match_classes [] s = Some ([], s)"
| "match_classes (p # ps) [] = None"
| "match_classes (p # ps) (c # cs) =
     (if p c then (case match_classes ps cs of None \<Rightarrow> None | Some (m, r) \<Rightarrow> Some (c # m, r))
      else None)"

definition piece_matches :: "piece \<Rightarrow> string \<Rightarrow> (string \<times> string) list" where
  "piece_matches p s =
     (case p of
        Choice alts \<Rightarrow> List.map_filter (\<lambda>alt. match_classes alt s) alts
      | Star cls \<Rightarrow> map (\<lambda>k. (take k s, drop k s)) (rev [0..<Suc (length (takeWhile cls s))])
      | Dollar \<Rightarrow> (if s = [] \<or> s = [CHR 0x0A] then [([], s)] else []))"

fun rx_run :: "pattern \<Rightarrow> string \<Rightarrow> groups \<Rightarrow> (groups \<times> string) list" where
  "rx_run [] s g = [(g, s)]"
| "rx_run ((name, p) # ps) s g =
     concat (map (\<lambda>(m, r). rx_run ps r (if name = [] then g else g @ [(name, m)])) (piece_matches p s))"

text \<open>\<^verbatim>\<open>re.match\<close> as a truth value: the pattern matches at the start of the string.\<close>

definition re_match :: "pattern \<Rightarrow> string \<Rightarrow> bool" where
  "re_match p s = (rx_run p s [] \<noteq> [])"

text \<open>A literal string as a sequence of one-character classes, and \<^verbatim>\<open>.\<close>.\<close>

definition lit :: "string \<Rightarrow> (char \<Rightarrow> bool) list" where
  "lit s = map (\<lambda>c x. x = c) s"

definition dot :: "char \<Rightarrow> bool" where
  "dot c = (c \<noteq> CHR 0x0A)"

text \<open>\<^verbatim>\<open>re.search\<close>: the first match at the leftmost start position.\<close>

fun re_search :: "pattern \<Rightarrow> string \<Rightarrow> groups option" where
  "re_search p [] = (case rx_run p [] [] of [] \<Rightarrow> None | (g, r) # _ \<Rightarrow> Some g)"
| "re_search p (c # cs) = (case rx_run p (c # cs) [] of [] \<Rightarrow> re_search p cs | (g, r) # _ \<Rightarrow> Some g)"

definition in_range :: "char \<Rightarrow> char \<Rightarrow> char \<Rightarrow> bool" where
  "in_range a b c = ((of_char a :: nat) \<le> of_char c \<and> (of_char c :: nat) \<le> of_char b)"

text \<open>A literal character of a \<^verbatim>\<open>strptime\<close> format: the pattern is compiled with
  \<^verbatim>\<open>IGNORECASE\<close>, so the \<^verbatim>\<open>T\<close> of the ISO formats also matches \<^verbatim>\<open>t\<close>.\<close>

definition lit_nocase :: "char \<Rightarrow> char \<Rightarrow> bool" where
  "lit_nocase a c = (py_lower_char c = py_lower_char a)"

text \<open>The pattern of each directive, from \<^verbatim>\<open>_strptime.TimeRE\<close>.\<close>

definition directive :: "char \<Rightarrow> piece" where
  "directive k =
     (if k = CHR ''d'' then Choice [[in_range CHR ''3'' CHR ''3'', in_range CHR ''0'' CHR ''1''],
                                   [in_range CHR ''1'' CHR ''2'', py_isdigit],
                                   [in_range CHR ''0'' CHR ''0'', in_range CHR ''1'' CHR ''9''],
                                   [in_range CHR ''1'' CHR ''9''],
                                   [in_range CHR '' '' CHR '' '', in_range CHR ''1'' CHR ''9'']]
      else if k = CHR ''m'' then Choice [[in_range CHR ''1'' CHR ''1'', in_range CHR ''0'' CHR ''2''],
                                        [in_range CHR ''0'' CHR ''0'', in_range CHR ''1'' CHR ''9''],
                                        [in_range CHR ''1'' CHR ''9'']]
      else if k = CHR ''Y'' then Choice [[py_isdigit, py_isdigit, py_isdigit, py_isdigit]]
      else if k = CHR ''y'' then Choice [[py_isdigit, py_isdigit]]
      else if k = CHR ''H'' then Choice [[in_range CHR ''2'' CHR ''2'', in_range CHR ''0'' CHR ''3''],
                                        [in_range CHR ''0'' CHR ''1'', py_isdigit],
                                        [py_isdigit]]
      else if k = CHR ''M'' then Choice [[in_range CHR ''0'' CHR ''5'', py_isdigit], [py_isdigit]]
      else if k = CHR ''S'' then Choice [[in_range CHR ''6'' CHR ''6'', in_range CHR ''0'' CHR ''1''],
                                        [in_range CHR ''0'' CHR ''5'', py_isdigit],
                                        [py_isdigit]]
      else if k = CHR ''f'' then Choice (map (\<lambda>n. replicate n (in_range CHR ''0'' CHR ''9'')) [6, 5, 4, 3, 2, 1])
      else Choice [])"

text \<open>\<^verbatim>\<open>TimeRE.pattern\<close>: a run of white space in the format becomes \<^verbatim>\<open>\s+\<close>
  (one white space, then the star), a directive \<^verbatim>\<open>%k\<close> its named group, anything
  else a literal.\<close>

definition spaces1 :: pattern where
  "spaces1 = [([], Choice [[py_isspace]]), ([], Star py_isspace)]"

fun format_pattern :: "string \<Rightarrow> pattern" where
  "format_pattern [] = []"
| "format_pattern [c] = (if py_isspace c then spaces1 else [([], Choice [[lit_nocase c]])])"
| "format_pattern (c # k # cs) =
     (if c = CHR ''%'' then ([k], directive k) # format_pattern cs
      else if py_isspace c then
        (if py_isspace k then format_pattern (k # cs) else spaces1 @ format_pattern (k # cs))
      else ([], Choice [[lit_nocase c]]) # format_pattern (k # cs))"

subsection \<open>\<^verbatim>\<open>datetime.strptime\<close>\<close>

text \<open>
  \<^verbatim>\<open>strptime\<close> takes the first match of the format's pattern at the start of the
  string and raises \<^verbatim>\<open>ValueError\<close> when there is none or when it does not end
  the string. A two-digit \<^verbatim>\<open>%y\<close> up to 68 is a year of the century 2000, from 69
  on of the century 1900; \<^verbatim>\<open>%f\<close> is padded with zeros on the right to six digits.
  The fields go to the \<^verbatim>\<open>datetime\<close> constructor, which raises \<^verbatim>\<open>ValueError\<close>
  for a date or time out of range.
\<close>

definition group_int :: "groups \<Rightarrow> string \<Rightarrow> nat \<Rightarrow> nat" where
  "group_int g name dflt = (case map_of g name of None \<Rightarrow> dflt | Some t \<Rightarrow> py_int t)"

definition strptime_year :: "groups \<Rightarrow> nat" where
  "strptime_year g =
     (case map_of g ''y'' of
        Some t \<Rightarrow> (let y = py_int t in if y \<le> 68 then y + 2000 else y + 1900)
      | None \<Rightarrow> group_int g ''Y'' 1900)"

definition strptime_fraction :: "groups \<Rightarrow> nat" where
  "strptime_fraction g =
     (case map_of g ''f'' of
        None \<Rightarrow> 0
      | Some t \<Rightarrow> py_int (t @ replicate (6 - length t) CHR ''0''))"

definition py_strptime :: "string \<Rightarrow> string \<Rightarrow> py_error + datetime" where
  "py_strptime data_string fmt =
     (case rx_run (format_pattern fmt) data_string [] of
        [] \<Rightarrow> Inl ValueError
      | (g, rest) # _ \<Rightarrow>
          if rest \<noteq> [] then Inl ValueError
          else datetime_new (strptime_year g) (group_int g ''m'' 1) (group_int g ''d'' 1)
                 (group_int g ''H'' 0) (group_int g ''M'' 0) (group_int g ''S'' 0)
                 (strptime_fraction g))"

subsection \<open>\<^verbatim>\<open>WhatsAppProcessor.parse_timestamp\<close>\<close>

text \<open>\<^verbatim>\<open>teste.py\<close>, lines 41-80. The formats are tried in order on the stripped
  string, a \<^verbatim>\<open>ValueError\<close> moving on to the next one; then the two
  \<^verbatim>\<open>re.search\<close> patterns are tried on the string as given.\<close>

definition formats :: "string list" where
  "formats =
     [''%d/%m/%Y, %H:%M'',
      ''%d/%m/%y, %H:%M'',
      ''%m/%d/%Y, %H:%M'',
      ''%Y-%m-%d %H:%M:%S'',
      ''%d-%m-%Y %H:%M'',
      ''%d/%m/%Y %H:%M:%S'',
      ''%Y-%m-%dT%H:%M:%S'',
      ''%Y-%m-%dT%H:%M:%S.%f'']"

fun try_formats :: "string \<Rightarrow> string list \<Rightarrow> datetime option" where
  "try_formats s [] = None"
| "try_formats s (fmt # fmts) =
     (case py_strptime s fmt of
        Inr t \<Rightarrow> Some t
      | Inl ValueError \<Rightarrow> try_formats s fmts)"

definition date_sep :: "char \<Rightarrow> bool" where
  "date_sep c = (c = CHR ''/'' \<or> c = CHR ''-'')"

text \<open>\<^verbatim>\<open>(\d{1,2})[/\-](\d{1,2})[/\-](\d{2,4})\<close> and \<^verbatim>\<open>(\d{1,2}):(\d{2})\<close>.\<close>

definition date_pattern :: pattern where
  "date_pattern =
     [(''1'', Choice [[py_isdigit, py_isdigit], [py_isdigit]]),
      ([], Choice [[date_sep]]),
      (''2'', Choice [[py_isdigit, py_isdigit], [py_isdigit]]),
      ([], Choice [[date_sep]]),
      (''3'', Choice [[py_isdigit, py_isdigit, py_isdigit, py_isdigit],
                      [py_isdigit, py_isdigit, py_isdigit],
                      [py_isdigit, py_isdigit]])]"

definition time_pattern :: pattern where
  "time_pattern =
     [(''1'', Choice [[py_isdigit, py_isdigit], [py_isdigit]]),
      ([], Choice [[(\<lambda>c. c = CHR '':'')]]),
      (''2'', Choice [[py_isdigit, py_isdigit]])]"

definition parse_fallback :: "string \<Rightarrow> datetime option" where
  "parse_fallback timestamp_str =
     (case (re_search date_pattern timestamp_str, re_search time_pattern timestamp_str) of
        (Some dg, Some tg) \<Rightarrow>
          (let day = group_int dg ''1'' 0; month = group_int dg ''2'' 0; year = group_int dg ''3'' 0;
               hour = group_int tg ''1'' 0; minute = group_int tg ''2'' 0;
               year = (if year < 100 then year + 2000 else year)
           in case datetime_new year month day hour minute 0 0 of
                Inr t \<Rightarrow> Some t
              | Inl ValueError \<Rightarrow> None)
      | _ \<Rightarrow> None)"

definition parse_timestamp :: "string \<Rightarrow> datetime option" where
  "parse_timestamp timestamp_str =
     (if timestamp_str = [] then None
      else case try_formats (py_strip timestamp_str) formats of
             Some t \<Rightarrow> Some t
           | None \<Rightarrow> parse_fallback timestamp_str)"

section \<open>Keyword extractor\<close>

text \<open>
  \<^verbatim>\<open>WhatsAppProcessor.extract_keywords\<close> (\<^verbatim>\<open>teste.py\<close>, lines 82-106).
  \<^verbatim>\<open>re.findall(r'\b\w+\b', s)\<close> returns the maximal runs of word characters of
  \<open>s\<close>, left to right. \<^verbatim>\<open>word_count\<close> is a dict, which keeps its keys in the order
  of first insertion: an association list. \<^verbatim>\<open>sorted(..., reverse=True)\<close> is stable:
  keys with the same count stay in first-seen order.
\<close>

fun findall_words :: "string \<Rightarrow> string \<Rightarrow> string list" where
  "findall_words [] cur = (if cur = [] then [] else [cur])"
| "findall_words (c # cs) cur =
     (if py_isword c then findall_words cs (cur @ [c])
      else if cur = [] then findall_words cs []
      else cur # findall_words cs [])"

definition stopwords :: "string list" where
  "stopwords =
     [''de'', ''a'', ''o'', ''que'', ''e'', ''do'', ''da'', ''em'', ''um'', ''para'',
      [CHR 0xE9], ''com'', ''n'' @ [CHR 0xE3] @ ''o'', ''uma'', ''os'', ''no'', ''se'',
      ''na'', ''por'', ''mais'', ''as'', ''dos'', ''como'', ''mas'', ''foi'', ''ao'',
      ''ele'', ''das'', ''tem'', [CHR 0xE0], ''seu'', ''sua'', ''ou'', ''ser'',
      ''quando'', ''muito'', ''nos'', ''j'' @ [CHR 0xE1], ''eu'',
      ''tamb'' @ [CHR 0xE9] @ ''m'', ''s'' @ [CHR 0xF3], ''pelo'', ''pela'',
      ''at'' @ [CHR 0xE9], ''isso'', ''ela'', ''entre'', ''era'', ''depois'', ''sem'',
      ''mesmo'', ''aos'', ''ter'', ''seus'', ''suas'', ''voc'' @ [CHR 0xEA],
      ''voc'' @ [CHR 0xEA] @ ''s'', ''meu'', ''minha'', ''nosso'', ''nossa'', ''dele'',
      ''dela'', ''vou'', ''vai'', ''vamos'', ''ent'' @ [CHR 0xE3] @ ''o'', ''aqui'',
      ''l'' @ [CHR 0xE1], ''onde'', ''porque'', ''ainda'', ''bem'', ''s'' @ [CHR 0xF3],
      ''sim'', ''n'' @ [CHR 0xE3] @ ''o'', ''n'' @ [CHR 0xE9], ''ok'', ''kkk'', ''kkkk'',
      ''rs'', ''rsrs'']"

fun incr :: "string \<Rightarrow> (string \<times> nat) list \<Rightarrow> (string \<times> nat) list" where
  "incr w [] = [(w, 1)]"
| "incr w ((k, n) # kvs) = (if k = w then (k, n + 1) # kvs else (k, n) # incr w kvs)"

fun count_words :: "string list \<Rightarrow> (string \<times> nat) list \<Rightarrow> (string \<times> nat) list" where
  "count_words [] word_count = word_count"
| "count_words (word # words) word_count =
     (if length word > 2 \<and> word \<notin> set stopwords
      then count_words words (incr word word_count)
      else count_words words word_count)"

definition extract_keywords :: "string \<Rightarrow> string list" where
  "extract_keywords text =
     (let words = findall_words (py_lower text) [];
          word_count = count_words words []
      in map fst (sort_key (\<lambda>kv. - int (snd kv)) word_count))"

section \<open>Boundary detector\<close>

text \<open>
  \<^verbatim>\<open>WhatsAppProcessor.detect_conversation_boundaries_conservative\<close> (\<^verbatim>\<open>teste.py\<close>,
  lines 108-160). \<open>should_split\<close> is the flag of lines 131-147, set by three
  \<^verbatim>\<open>if\<close> statements in turn; it is computed only when the accumulator is not
  empty. \<open>detect_loop\<close> is the \<^verbatim>\<open>for\<close> loop with its two accumulators.
\<close>

definition should_split :: "msg list \<Rightarrow> msg \<Rightarrow> bool" where
  "should_split current_conversation m =
     (let last_msg = last current_conversation;
          current_time = parse_timestamp (timestamp m);
          last_time = parse_timestamp (timestamp last_msg);
          split0 = False;
          split1 = (case (current_time, last_time) of
                      (Some c, Some l) \<Rightarrow> (if gap_over_24h c l then True else split0)
                    | _ \<Rightarrow> split0);
          split2 = (if length current_conversation > 100 then True else split1);
          recent_authors = set (map author (py_slice_from current_conversation (- 20)))
      in if card recent_authors > 2 \<and> author m \<notin> recent_authors then True else split2)"

fun detect_loop :: "msg list \<Rightarrow> msg list list \<Rightarrow> msg list \<Rightarrow> msg list list \<times> msg list" where
  "detect_loop [] conversations current_conversation = (conversations, current_conversation)"
| "detect_loop (m # ms) conversations current_conversation =
     (if current_conversation = [] then detect_loop ms conversations [m]
      else if should_split current_conversation m \<and> length current_conversation \<ge> 5
      then detect_loop ms (conversations @ [current_conversation]) [m]
      else detect_loop ms conversations (current_conversation @ [m]))"

definition detect_conversation_boundaries_conservative :: "msg list \<Rightarrow> msg list list" where
  "detect_conversation_boundaries_conservative messages =
     (if messages = [] then []
      else case detect_loop messages [] [] of
             (conversations, current_conversation) \<Rightarrow>
               if length current_conversation \<ge> 5 then conversations @ [current_conversation]
               else conversations)"

text \<open>The three criteria as the specification words them, for an accumulator
  \<open>acc\<close> whose last element is the previous message.\<close>

definition spec_temporal_gap :: "msg list \<Rightarrow> msg \<Rightarrow> bool" where
  "spec_temporal_gap acc m =
     (case parse_timestamp (timestamp m) of
        None \<Rightarrow> False
      | Some c \<Rightarrow>
          (case parse_timestamp (timestamp (last acc)) of
             None \<Rightarrow> False
           | Some l \<Rightarrow> dt_micros c - dt_micros l > 24 * 3600 * 1000000))"

definition spec_size_cap :: "msg list \<Rightarrow> bool" where
  "spec_size_cap acc = (length acc > 100)"

definition spec_participant_shift :: "msg list \<Rightarrow> msg \<Rightarrow> bool" where
  "spec_participant_shift acc m =
     (card (author ` set (drop (length acc - 20) acc)) > 2
      \<and> author m \<notin> author ` set (drop (length acc - 20) acc))"

section \<open>Overlap windower\<close>

text \<open>
  \<^verbatim>\<open>create_overlapping_chunks\<close> (\<^verbatim>\<open>teste.py\<close>, lines 162-177). The loop
  \<^verbatim>\<open>for i in range(0, len(messages), chunk_size - overlap)\<close> is the recursion
  \<open>chunks_loop\<close> on the cursor \<open>i\<close>; \<^verbatim>\<open>range\<close> raises \<^verbatim>\<open>ValueError\<close> for a zero
  step and is empty for a negative one (the list is non-empty there).
\<close>

function chunks_loop :: "'a list \<Rightarrow> int \<Rightarrow> int \<Rightarrow> int \<Rightarrow> 'a list list \<Rightarrow> 'a list list" where
  "chunks_loop messages chunk_size step i chunks =
     (if 0 < step \<and> i < int (length messages) then
        (let chunk = py_slice messages i (i + chunk_size)
         in chunks_loop messages chunk_size step (i + step)
              (if 5 \<le> length chunk then chunks @ [chunk] else chunks))
      else chunks)"
  by pat_completeness auto
termination
  by (relation "measure (\<lambda>(messages, chunk_size, step, i, chunks). nat (int (length messages) - i))") auto

declare chunks_loop.simps [simp del]

definition create_overlapping_chunks :: "'a list \<Rightarrow> int \<Rightarrow> int \<Rightarrow> py_error + 'a list list" where
  "create_overlapping_chunks messages chunk_size overlap =
     (if messages = [] then Inr []
      else if chunk_size - overlap = 0 then Inl ValueError
      else Inr (chunks_loop messages chunk_size (chunk_size - overlap) 0 []))"

text \<open>The window count the specification states for \<open>size = 40\<close>, \<open>overlap = 15\<close>:
  \<open>ceil (max 0 (N - 15) / 25)\<close>.\<close>

definition spec_window_count :: "nat \<Rightarrow> nat" where
  "spec_window_count N = (max 0 (N - 15) + 24) div 25"

text \<open>The number of cursors \<open>i\<close>, \<open>i + 25\<close>, ... that leave at least 5 of \<open>N\<close> messages.\<close>

definition window_count :: "nat \<Rightarrow> nat \<Rightarrow> nat" where
  "window_count N i = (if i + 5 \<le> N then (N - 5 - i) div 25 + 1 else 0)"

section \<open>Message normalizer\<close>

subsection \<open>Conservative mode (\<^verbatim>\<open>teste.py\<close>)\<close>

text \<open>\<^verbatim>\<open>WhatsAppProcessor.is_system_message\<close> (\<^verbatim>\<open>teste.py\<close>, lines 196-221), with the
  phrase list of lines 21-28 and the five patterns of lines 209-215.\<close>

definition system_messages :: "string list" where
  "system_messages =
     [''mensagem apagada'', ''media omitted'', ''audio omitted'', ''image omitted'',
      ''document omitted'', ''video omitted'', ''sticker omitted'', ''gif omitted'',
      ''contact card omitted'', ''location omitted'',
      ''voc'' @ [CHR 0xEA] @ '' foi adicionado'', ''saiu'', ''entrou no grupo'',
      ''mudou o assunto'', ''mudou a descri'' @ [CHR 0xE7] @ [CHR 0xE3] @ ''o'',
      ''criou o grupo'', ''removeu'', ''adicionado'', ''chamada de voz'',
      ''chamada de v'' @ [CHR 0xED] @ ''deo'', ''perdida'', ''ocupado'', ''rejeitada'']"

definition system_patterns :: "pattern list" where
  "system_patterns =
     [[([], Star py_isspace), ([], Choice [lit ''['']), ([], Star dot), ([], Choice [lit '']'']),
       ([], Star py_isspace), ([], Dollar)],
      [([], Choice [lit ''chamada '']), ([], Choice [lit ''perdida'', lit ''rejeitada'']), ([], Dollar)],
      [([], Choice [lit (''voc'' @ [CHR 0xEA] @ '' foi adicionado'')]), ([], Dollar)],
      [([], Star dot), ([], Choice [lit '' saiu'']), ([], Dollar)],
      [([], Star dot), ([], Choice [lit '' mudou '']), ([], Star dot), ([], Choice [lit ''para'']),
       ([], Star dot), ([], Dollar)]]"

definition is_system_message :: "string \<Rightarrow> bool" where
  "is_system_message m =
     (if m = [] \<or> length (py_strip m) < 2 then True
      else let message_lower = py_strip (py_lower m)
           in if \<exists>sys_msg \<in> set system_messages.
                   message_lower = sys_msg \<or> py_startswith message_lower sys_msg
              then True
              else if \<exists>p \<in> set system_patterns. re_match p message_lower then True
              else False)"

text \<open>\<^verbatim>\<open>WhatsAppProcessor.clean_message\<close> (\<^verbatim>\<open>teste.py\<close>, lines 179-194): control
  characters are removed, every run of white space becomes one blank, and in a
  message of more than 200 characters that holds \<^verbatim>\<open>http\<close> every match of
  \<^verbatim>\<open>http[s]?://[^\s]{100,}\<close> becomes \<^verbatim>\<open>[link_longo]\<close>.\<close>

definition is_control :: "char \<Rightarrow> bool" where
  "is_control c =
     (let n = (of_char c :: nat)
      in n \<le> 8 \<or> n = 11 \<or> n = 12 \<or> (14 \<le> n \<and> n \<le> 31) \<or> n = 127)"

fun squeeze_spaces :: "bool \<Rightarrow> string \<Rightarrow> string" where
  "squeeze_spaces in_run [] = []"
| "squeeze_spaces in_run (c # cs) =
     (if py_isspace c then (if in_run then squeeze_spaces True cs else CHR '' '' # squeeze_spaces True cs)
      else c # squeeze_spaces False cs)"

definition long_url_pattern :: pattern where
  "long_url_pattern =
     [([], Choice [lit ''http'']), ([], Choice [lit ''s'', []]), ([], Choice [lit ''://'']),
      ([], Choice [replicate 100 (\<lambda>c. \<not> py_isspace c)]), ([], Star (\<lambda>c. \<not> py_isspace c))]"

text \<open>\<^verbatim>\<open>re.sub\<close> with a pattern that never matches the empty string: \<open>skip\<close> counts
  the characters of the last match still to pass over.\<close>

fun re_sub :: "pattern \<Rightarrow> string \<Rightarrow> nat \<Rightarrow> string \<Rightarrow> string" where
  "re_sub p repl skip [] = []"
| "re_sub p repl (Suc skip) (c # cs) = re_sub p repl skip cs"
| "re_sub p repl 0 (c # cs) =
     (case rx_run p (c # cs) [] of
        [] \<Rightarrow> c # re_sub p repl 0 cs
      | (g, rest) # _ \<Rightarrow> repl @ re_sub p repl (length cs - length rest) cs)"

definition clean_message :: "string \<Rightarrow> string" where
  "clean_message m =
     (if m = [] then []
      else let m1 = filter (\<lambda>c. \<not> is_control c) m;
               m2 = squeeze_spaces False m1;
               m3 = (if length m2 > 200 \<and> py_contains ''http'' m2
                     then re_sub long_url_pattern ''[link_longo]'' 0 m2 else m2)
           in py_strip m3)"

text \<open>One record of the JSON array; \<^verbatim>\<open>item.get(key, default)\<close> reads a field that
  may be absent.\<close>

record raw_item =
  item_author :: "string option"
  item_message :: "string option"
  item_timestamp :: "string option"

definition dict_get :: "'a option \<Rightarrow> 'a \<Rightarrow> 'a" where
  "dict_get v dflt = (case v of None \<Rightarrow> dflt | Some x \<Rightarrow> x)"

text \<open>The filtering loop of \<^verbatim>\<open>create_whatsapp_database\<close> (\<^verbatim>\<open>teste.py\<close>, lines
  262-291), with its list and its two counters.\<close>

record filter_state =
  valid_messages :: "msg list"
  system_count :: nat
  empty_count :: nat

fun filter_loop :: "raw_item list \<Rightarrow> nat \<Rightarrow> filter_state \<Rightarrow> filter_state" where
  "filter_loop [] i st = st"
| "filter_loop (item # items) i st =
     (let author' = dict_get (item_author item) ''Desconhecido'';
          message' = py_strip (dict_get (item_message item) []);
          timestamp' = dict_get (item_timestamp item) []
      in if length message' < 1 then
           filter_loop items (Suc i) (st\<lparr>empty_count := empty_count st + 1\<rparr>)
         else if is_system_message message' then
           filter_loop items (Suc i) (st\<lparr>system_count := system_count st + 1\<rparr>)
         else
           filter_loop items (Suc i)
             (st\<lparr>valid_messages := valid_messages st @
                  [\<lparr>author = author', message = clean_message message', original_message = message',
                    timestamp = timestamp', index = i\<rparr>]\<rparr>))"

definition filter_messages :: "raw_item list \<Rightarrow> filter_state" where
  "filter_messages data = filter_loop data 0 \<lparr>valid_messages = [], system_count = 0, empty_count = 0\<rparr>"

subsection \<open>Simple mode (\<^verbatim>\<open>rag.py\<close>, \<^verbatim>\<open>app.py\<close>)\<close>

text \<open>The two tests at the head of the loop of \<^verbatim>\<open>preprocess_whatsapp_data\<close>
  (\<^verbatim>\<open>rag.py\<close>, lines 46-67; \<^verbatim>\<open>app.py\<close>, lines 65-82, has the same two tests): a
  record that passes neither \<^verbatim>\<open>continue\<close> is appended to the conversation window
  (\<^verbatim>\<open>rag.py\<close>, lines 96-101). \<open>simple_accepted\<close> lists the appended records in
  order.\<close>

definition simple_system_messages :: "string list" where
  "simple_system_messages =
     [''mensagem apagada'', ''media omitted'', ''audio omitted'', ''image omitted'',
      ''document omitted'', ''video omitted'']"

definition simple_skips :: "string \<Rightarrow> bool" where
  "simple_skips message' =
     (if length message' < 3 then True
      else if \<exists>sys_msg \<in> set simple_system_messages. py_contains sys_msg (py_lower message') then True
      else False)"

fun simple_accepted :: "raw_item list \<Rightarrow> nat \<Rightarrow> msg list" where
  "simple_accepted [] i = []"
| "simple_accepted (item # items) i =
     (let author' = dict_get (item_author item) ''Desconhecido'';
          message' = py_strip (dict_get (item_message item) []);
          timestamp' = dict_get (item_timestamp item) []
      in if simple_skips message' then simple_accepted items (Suc i)
         else \<lparr>author = author', message = message', original_message = message',
               timestamp = timestamp', index = i\<rparr> # simple_accepted items (Suc i))"

section \<open>Document builder: participants\<close>

text \<open>
  \<^verbatim>\<open>participants = list(set([msg['author'] for msg in conversation]))\<close> and
  \<^verbatim>\<open>', '.join(participants)\<close> (\<^verbatim>\<open>teste.py\<close>, lines 330, 358, 377 and 400;
  \<^verbatim>\<open>rag.py\<close>, lines 79-80 and 110-111; \<^verbatim>\<open>app.py\<close>, lines 94-95 and 113-114).
  The order in which a Python \<^verbatim>\<open>set\<close> of strings is iterated depends on the
  hashes of the strings, which change from one run of the interpreter to the
  next; it is the parameter \<open>set_to_list\<close>, of which Python only promises
  \<open>set_iteration\<close>: every element once.
\<close>

definition set_iteration :: "(string list \<Rightarrow> string list) \<Rightarrow> bool" where
  "set_iteration set_to_list = (\<forall>xs. distinct (set_to_list xs) \<and> set (set_to_list xs) = set xs)"

definition participants :: "(string list \<Rightarrow> string list) \<Rightarrow> msg list \<Rightarrow> string list" where
  "participants set_to_list conversation = set_to_list (map author conversation)"

definition participants_str :: "(string list \<Rightarrow> string list) \<Rightarrow> msg list \<Rightarrow> string" where
  "participants_str set_to_list conversation = py_join '', '' (participants set_to_list conversation)"

text \<open>The specification's reading: the distinct authors in first-seen order.\<close>

fun first_seen :: "string list \<Rightarrow> string list \<Rightarrow> string list" where
  "first_seen [] seen = seen"
| "first_seen (x # xs) seen = (if x \<in> set seen then first_seen xs seen else first_seen xs (seen @ [x]))"

definition spec_participants_str :: "msg list \<Rightarrow> string" where
  "spec_participants_str conversation = py_join '', '' (first_seen (map author conversation) [])"

section \<open>Batched submission to the store\<close>

text \<open>
  The vector store (Chroma) is outside the repository: \<open>from_documents\<close> is
  \<^verbatim>\<open>Chroma.from_documents\<close>, which returns a store or raises, and \<open>add_documents\<close>
  is \<^verbatim>\<open>vector_db.add_documents\<close>, which changes the store and may raise. What the
  functions print is the list of \<open>log_line\<close>s, one constructor for each
  \<^verbatim>\<open>print\<close> (or group of prints) with the values it interpolates:
  \<^item> \<open>Config\<close>: \<^verbatim>\<open>teste.py\<close> 427-430, the number of documents, the batch size and the
    number of batches;
  \<^item> \<open>FirstBatchStart\<close>, \<open>FirstBatchCreated\<close>, \<open>CreateError\<close>: \<^verbatim>\<open>teste.py\<close> 435, 442, 444;
  \<^item> \<open>BatchStart\<close>: \<^verbatim>\<open>teste.py\<close> 452, the batch number, the number of batches and the
    first and last document index of the batch;
  \<^item> \<open>BatchProgress\<close>: \<^verbatim>\<open>teste.py\<close> 457, the two operands of the percentage;
  \<^item> \<open>BatchError\<close>: \<^verbatim>\<open>teste.py\<close> 459 and \<^verbatim>\<open>app.py\<close> 234, the batch number and the
    exception;
  \<^item> \<open>Finished\<close>: the closing lines (\<^verbatim>\<open>teste.py\<close> 464-469, \<^verbatim>\<open>app.py\<close> 238), which show
    elapsed times and the path of the store and nothing else;
  \<^item> \<open>Starting\<close>, \<open>FirstLote\<close>, \<open>Lote\<close>: \<^verbatim>\<open>app.py\<close> 215, 221 (the number of batches
    announced) and 230 (the batch number and the two operands of the percentage).
\<close>

datatype 'e log_line =
    Config nat nat nat
  | FirstBatchStart
  | FirstBatchCreated
  | CreateError 'e
  | BatchStart nat nat nat nat
  | BatchProgress nat nat
  | BatchError nat 'e
  | Finished
  | Starting
  | FirstLote nat
  | Lote nat nat nat

text \<open>\<^verbatim>\<open>create_whatsapp_database\<close>, stage 5 (\<^verbatim>\<open>teste.py\<close>, lines 424-469 and the
  \<^verbatim>\<open>return vector_db\<close> of line 487): the first batch in a \<^verbatim>\<open>try\<close> that returns
  \<^verbatim>\<open>None\<close> on failure, then one \<^verbatim>\<open>try\<close> for each later batch. The loop carries the
  store and nothing else; the value returned is the store. (Between the closing
  lines and the \<^verbatim>\<open>return\<close> the function runs one query on the store, lines
  471-485, inside a \<^verbatim>\<open>try\<close> of its own, and prints what the query finds.)\<close>

definition total_batches :: "'d list \<Rightarrow> nat" where
  "total_batches documents = (length documents + 10 - 1) div 10"

definition add_batch ::
  "('s \<Rightarrow> 'd list \<Rightarrow> 's \<times> 'e option) \<Rightarrow> 'd list \<Rightarrow> nat \<Rightarrow> 's \<times> 'e log_line list \<Rightarrow> 's \<times> 'e log_line list" where
  "add_batch add_documents documents batch_num st =
     (case st of (vector_db, log) \<Rightarrow>
        (let start_idx = batch_num * 10;
             end_idx = min (start_idx + 10) (length documents);
             log1 = log @ [BatchStart (batch_num + 1) (total_batches documents) start_idx (end_idx - 1)]
         in case add_documents vector_db (py_slice documents (int start_idx) (int end_idx)) of
              (vector_db', None) \<Rightarrow>
                (vector_db', log1 @ [BatchProgress (batch_num + 1) (total_batches documents)])
            | (vector_db', Some e) \<Rightarrow> (vector_db', log1 @ [BatchError (batch_num + 1) e])))"

definition store_documents ::
  "('d list \<Rightarrow> 'e + 's) \<Rightarrow> ('s \<Rightarrow> 'd list \<Rightarrow> 's \<times> 'e option) \<Rightarrow> 'd list \<Rightarrow> 's option \<times> 'e log_line list" where
  "store_documents from_documents add_documents documents =
     (let log0 = [Config (length documents) 10 (total_batches documents), FirstBatchStart]
      in case from_documents (py_slice documents 0 10) of
           Inl e \<Rightarrow> (None, log0 @ [CreateError e])
         | Inr vector_db \<Rightarrow>
             (case fold (add_batch add_documents documents) [1..<total_batches documents]
                     (vector_db, log0 @ [FirstBatchCreated]) of
                (vector_db', log) \<Rightarrow> (Some vector_db', log @ [Finished])))"

text \<open>\<^verbatim>\<open>create_vector_database_with_logging\<close> of \<^verbatim>\<open>app.py\<close> (lines 213-239): batches
  of 5, the first batch outside any \<^verbatim>\<open>try\<close> (its exception leaves the function),
  then \<^verbatim>\<open>for i in range(batch_size, total_docs, batch_size)\<close> with a \<^verbatim>\<open>try\<close> for
  each batch, and \<^verbatim>\<open>return vector_db\<close>.\<close>

definition add_batch_at ::
  "('s \<Rightarrow> 'd list \<Rightarrow> 's \<times> 'e option) \<Rightarrow> 'd list \<Rightarrow> nat \<Rightarrow> 's \<times> 'e log_line list \<Rightarrow> 's \<times> 'e log_line list" where
  "add_batch_at add_documents documents i st =
     (case st of (vector_db, log) \<Rightarrow>
        (let log1 = log @ [Lote (i div 5 + 1) i (length documents)]
         in case add_documents vector_db (py_slice documents (int i) (int i + 5)) of
              (vector_db', None) \<Rightarrow> (vector_db', log1)
            | (vector_db', Some e) \<Rightarrow> (vector_db', log1 @ [BatchError (i div 5 + 1) e])))"

definition create_vector_database_with_logging ::
  "('d list \<Rightarrow> 'e + 's) \<Rightarrow> ('s \<Rightarrow> 'd list \<Rightarrow> 's \<times> 'e option) \<Rightarrow> 'd list \<Rightarrow> 'e + 's \<times> 'e log_line list" where
  "create_vector_database_with_logging from_documents add_documents documents =
     (case from_documents (py_slice documents 0 5) of
        Inl e \<Rightarrow> Inl e
      | Inr vector_db \<Rightarrow>
          (case fold (add_batch_at add_documents documents)
                  (map (\<lambda>k. 5 * k) [1..<(length documents + 4) div 5])
                  (vector_db, [Starting, FirstLote (length documents div 5 + 1)]) of
             (vector_db', log) \<Rightarrow> Inr (vector_db', log @ [Finished])))"

text \<open>A store stub that records every call it receives and raises on its
  \<open>k\<close>-th call (the creation is the first call).\<close>

datatype 'd call = Created "'d list" | Added "'d list" | Failed "'d list"

definition stub_create :: "'d list \<Rightarrow> string + 'd call list" where
  "stub_create docs = Inr [Created docs]"

definition stub_add :: "nat \<Rightarrow> 'd call list \<Rightarrow> 'd list \<Rightarrow> 'd call list \<times> string option" where
  "stub_add k calls docs =
     (if length calls + 1 = k then (calls @ [Failed docs], Some ''store failure'')
      else (calls @ [Added docs], None))"

fun stored :: "'d call list \<Rightarrow> 'd list" where
  "stored [] = []"
| "stored (Created docs # calls) = docs @ stored calls"
| "stored (Added docs # calls) = docs @ stored calls"
| "stored (Failed docs # calls) = stored calls"

fun batch_errors :: "'e log_line list \<Rightarrow> nat list" where
  "batch_errors [] = []"
| "batch_errors (BatchError n e # log) = n # batch_errors log"
| "batch_errors (l # log) = batch_errors log"

text \<open>The batch numbers of the start lines and of the progress lines of a log.\<close>

fun batch_starts :: "'e log_line list \<Rightarrow> nat list" where
  "batch_starts [] = []"
| "batch_starts (BatchStart n t a b # log) = n # batch_starts log"
| "batch_starts (l # log) = batch_starts log"

fun batch_done :: "'e log_line list \<Rightarrow> nat list" where
  "batch_done [] = []"
| "batch_done (BatchProgress n t # log) = n # batch_done log"
| "batch_done (l # log) = batch_done log"

text \<open>A message record for the examples.\<close>

definition mk_msg :: "string \<Rightarrow> string \<Rightarrow> nat \<Rightarrow> msg" where
  "mk_msg a t i = \<lparr>author = a, message = ''ola pessoal'', original_message = ''ola pessoal'',
                   timestamp = t, index = i\<rparr>"

text \<open>Seven messages of one author in one minute, then three of another author two
  days later; and three messages followed by one two days later.\<close>

definition ex10 :: "msg list" where
  "ex10 =
     [mk_msg ''Ana'' ''15/03/2023, 14:30'' 0, mk_msg ''Ana'' ''15/03/2023, 14:30'' 1,
      mk_msg ''Ana'' ''15/03/2023, 14:30'' 2, mk_msg ''Ana'' ''15/03/2023, 14:30'' 3,
      mk_msg ''Ana'' ''15/03/2023, 14:30'' 4, mk_msg ''Ana'' ''15/03/2023, 14:30'' 5,
      mk_msg ''Ana'' ''15/03/2023, 14:30'' 6, mk_msg ''Bia'' ''17/03/2023, 14:30'' 7,
      mk_msg ''Bia'' ''17/03/2023, 14:30'' 8, mk_msg ''Bia'' ''17/03/2023, 14:30'' 9]"

definition ex4 :: "msg list" where
  "ex4 =
     [mk_msg ''Ana'' ''15/03/2023, 14:30'' 0, mk_msg ''Ana'' ''15/03/2023, 14:30'' 1,
      mk_msg ''Ana'' ''15/03/2023, 14:30'' 2, mk_msg ''Bia'' ''17/03/2023, 14:30'' 3]"

text \<open>Four raw records: a deleted message, a media placeholder, a two-letter
  message and an ordinary one.\<close>

definition mk_item :: "string \<Rightarrow> raw_item" where
  "mk_item t = \<lparr>item_author = Some ''Ana'', item_message = Some t,
                 item_timestamp = Some ''15/03/2023, 14:30''\<rparr>"

definition ex_items :: "raw_item list" where
  "ex_items = [mk_item ''Mensagem Apagada'', mk_item ''<Media omitted>'', mk_item ''oi'',
               mk_item ''bom dia pessoal'']"

text \<open>One order in which a set may be iterated: last seen first.\<close>

definition last_seen_first :: "string list \<Rightarrow> string list" where
  "last_seen_first xs = rev (first_seen xs [])"

text \<open>The batch with number \<open>j\<close> (from 0) that stage 5 of
  \<^verbatim>\<open>create_whatsapp_database\<close> submits, and the call that the stub failing on call
  \<open>k\<close> records for it.\<close>

definition batch_of :: "'d list \<Rightarrow> nat \<Rightarrow> 'd list" where
  "batch_of documents j =
     py_slice documents (int (j * 10)) (int (min (j * 10 + 10) (length documents)))"

definition stub_call :: "nat \<Rightarrow> 'd list \<Rightarrow> nat \<Rightarrow> 'd call" where
  "stub_call k documents j =
     (if Suc j = k then Failed (batch_of documents j) else Added (batch_of documents j))"

section \<open>Evaluation on concrete inputs\<close>

text \<open>The definitions are evaluated by the simplifier from these unfoldings.\<close>

lemmas rx_eval = py_isspace_def py_isdigit_def in_range_def lit_nocase_def py_lower_char_def
  directive_def piece_matches_def List.map_filter_def spaces1_def char_of_eq_iff date_sep_def
  lit_def dot_def

lemmas ts_eval = py_strptime_def datetime_new_def strptime_year_def group_int_def
  strptime_fraction_def py_int_def py_strip_def days_in_month_def is_leap_def parse_timestamp_def
  formats_def parse_fallback_def date_pattern_def time_pattern_def

lemma char_eq_char_of: "c = char_of (n :: nat) \<longleftrightarrow> take_bit 8 n = of_char c"
  using char_of_eq_iff [of n c] by auto

lemmas sys_eval = is_system_message_def system_messages_def system_patterns_def re_match_def
  py_strip_def py_lower_def py_startswith_def rx_eval char_eq_char_of Let_def

lemmas kw_eval = extract_keywords_def py_lower_def py_lower_char_def py_isword_def stopwords_def
  Let_def char_of_eq_iff char_eq_char_of

lemma parse_15_march:
  "parse_timestamp ''15/03/2023, 14:30'' =
     Some \<lparr>year = 2023, month = 3, day = 15, hour = 14, minute = 30, second = 0, microsecond = 0\<rparr>"
  by (simp add: rx_eval ts_eval)

lemma parse_17_march:
  "parse_timestamp ''17/03/2023, 14:30'' =
     Some \<lparr>year = 2023, month = 3, day = 17, hour = 14, minute = 30, second = 0, microsecond = 0\<rparr>"
  by (simp add: rx_eval ts_eval)

lemmas split_eval = should_split_def parse_15_march parse_17_march gap_over_24h_def dt_micros_def
  toordinal_def days_before_year_def days_before_month_def days_in_month_def is_leap_def
  py_slice_from_def py_clip_def mk_msg_def Let_def

lemma ex10_split: "should_split (take 7 ex10) (ex10 ! 7)"
  by (simp add: ex10_def split_eval)

lemma ex10_loop: "detect_loop (take 7 ex10) [] [] = ([], take 7 ex10)"
  by (simp add: ex10_def split_eval)

lemma ex10_detect: "detect_conversation_boundaries_conservative ex10 = [take 7 ex10]"
  by (simp add: ex10_def detect_conversation_boundaries_conservative_def split_eval)

lemma ex4_split: "should_split (take 3 ex4) (ex4 ! 3)"
  by (simp add: ex4_def split_eval)

lemma ex4_loop: "detect_loop (take 3 ex4) [] [] = ([], take 3 ex4)"
  by (simp add: ex4_def split_eval)

section \<open>Verification: boundary detector\<close>

lemma py_slice_from_last20:
  "py_slice_from xs (- 20) = drop (length xs - 20) xs"
proof -
  have "nat (max 0 (int (length xs) - 20)) = length xs - 20" by arith
  then show ?thesis by (simp add: py_slice_from_def py_clip_def)
qed

text \<open>
  C1. The flag \<open>should_split\<close>, which the detector computes before it appends the
  incoming message \<open>m\<close> to the accumulator \<open>acc\<close>, is set exactly when one of the
  three criteria holds: both \<open>m\<close> and the last accumulated message have a parsed
  time and the gap is more than 24 hours; or the accumulator holds more than 100
  messages; or the last 20 accumulated messages have more than 2 distinct authors
  and the author of \<open>m\<close> is not one of them.
\<close>

theorem split_criteria:
  "should_split acc m \<longleftrightarrow>
     spec_temporal_gap acc m \<or> spec_size_cap acc \<or> spec_participant_shift acc m"
  by (auto simp: should_split_def spec_temporal_gap_def spec_size_cap_def
      spec_participant_shift_def gap_over_24h_def py_slice_from_last20 Let_def
      split: option.splits)

text \<open>In \<open>ex10\<close> the eighth message comes two days after the seventh: the flag is set
  by the temporal gap alone.\<close>

theorem split_criteria_witness:
  "should_split (take 7 ex10) (ex10 ! 7) \<and> spec_temporal_gap (take 7 ex10) (ex10 ! 7)
   \<and> \<not> spec_size_cap (take 7 ex10) \<and> \<not> spec_participant_shift (take 7 ex10) (ex10 ! 7)"
proof -
  have gap: "spec_temporal_gap (take 7 ex10) (ex10 ! 7)"
    by (simp add: ex10_def spec_temporal_gap_def split_eval)
  have cap: "\<not> spec_size_cap (take 7 ex10)"
    by (simp add: ex10_def spec_size_cap_def)
  have shift: "\<not> spec_participant_shift (take 7 ex10) (ex10 ! 7)"
    by (simp add: ex10_def spec_participant_shift_def mk_msg_def)
  from gap have "should_split (take 7 ex10) (ex10 ! 7)"
    using split_criteria [of "take 7 ex10" "ex10 ! 7"] by simp
  with gap cap shift show ?thesis by simp
qed

lemma detect_loop_append:
  "detect_loop (xs @ ys) convs cur =
     (case detect_loop xs convs cur of (convs', cur') \<Rightarrow> detect_loop ys convs' cur')"
  by (induction xs arbitrary: convs cur) auto

lemma detect_loop_concat:
  "detect_loop ms convs cur = (convs', cur') \<Longrightarrow> concat convs' @ cur' = concat convs @ cur @ ms"
  by (induction ms arbitrary: convs cur) (auto split: if_splits)

lemma detect_loop_min_length:
  "detect_loop ms convs cur = (convs', cur') \<Longrightarrow> list_all (\<lambda>seg. 5 \<le> length seg) convs
     \<Longrightarrow> list_all (\<lambda>seg. 5 \<le> length seg) convs'"
  by (induction ms arbitrary: convs cur) (auto split: if_splits)

text \<open>
  C2. Let \<open>(convs, cur)\<close> be the emitted segments and the accumulator after the stream
  \<open>ms\<close>. The next message \<open>m\<close> starts the accumulator when it is empty (the first
  message only); it closes \<open>cur\<close>, emits it and starts a new accumulator \<open>[m]\<close> when
  the split is forced and \<open>cur\<close> holds at least 5 messages; in every other case,
  also when a split is forced on fewer than 5 messages, it is appended to \<open>cur\<close>.
  At the end of the stream the accumulator is emitted when it holds at least 5
  messages and discarded otherwise.
\<close>

theorem split_honoured_from_five:
  "detect_loop (ms @ [m]) [] [] =
     (case detect_loop ms [] [] of
        (convs, cur) \<Rightarrow>
          if cur = [] then (convs, [m])
          else if should_split cur m \<and> 5 \<le> length cur then (convs @ [cur], [m])
          else (convs, cur @ [m]))
   \<and> detect_conversation_boundaries_conservative ms =
     (case detect_loop ms [] [] of
        (convs, cur) \<Rightarrow> if 5 \<le> length cur then convs @ [cur] else convs)"
  by (auto simp: detect_loop_append detect_conversation_boundaries_conservative_def
      split: prod.splits)

text \<open>In \<open>ex10\<close> the split forced by the eighth message is honoured (seven messages
  are accumulated); in \<open>ex4\<close> the split forced by the fourth message is not (three
  are), and the four messages, fewer than 5, are discarded at the end.\<close>

theorem split_honoured_from_five_witness:
  "detect_loop (take 7 ex10 @ [ex10 ! 7]) [] [] = ([take 7 ex10], [ex10 ! 7])
   \<and> should_split (take 3 ex4) (ex4 ! 3)
   \<and> detect_loop (take 3 ex4 @ [ex4 ! 3]) [] [] = ([], take 3 ex4 @ [ex4 ! 3])
   \<and> detect_conversation_boundaries_conservative (take 3 ex4 @ [ex4 ! 3]) = []"
proof -
  have a: "detect_loop (take 7 ex10 @ [ex10 ! 7]) [] [] = ([take 7 ex10], [ex10 ! 7])"
    using split_honoured_from_five [of "take 7 ex10" "ex10 ! 7"] ex10_loop ex10_split
    by (simp add: ex10_def)
  have b: "detect_loop (take 3 ex4 @ [ex4 ! 3]) [] [] = ([], take 3 ex4 @ [ex4 ! 3])"
    using split_honoured_from_five [of "take 3 ex4" "ex4 ! 3"] ex4_loop
    by (simp add: ex4_def)
  have c: "detect_conversation_boundaries_conservative (take 3 ex4 @ [ex4 ! 3]) = []"
    using split_honoured_from_five [of "take 3 ex4 @ [ex4 ! 3]" "ex4 ! 3"] b
    by (simp add: ex4_def)
  from a b c ex4_split show ?thesis by simp
qed

text \<open>
  C10. The segments returned by the detector, concatenated in the order of
  emission, are the input list without a trailing remainder \<open>r\<close> of fewer than 5
  messages (possibly none): nothing before the remainder is dropped, repeated or
  moved. Every segment holds at least 5 messages.
\<close>

theorem segments_are_a_prefix:
  "\<exists>r. length r < 5 \<and> concat (detect_conversation_boundaries_conservative ms) @ r = ms
       \<and> list_all (\<lambda>seg. 5 \<le> length seg) (detect_conversation_boundaries_conservative ms)"
proof (cases "ms = []")
  case True
  then show ?thesis by (simp add: detect_conversation_boundaries_conservative_def)
next
  case False
  obtain convs cur where st: "detect_loop ms [] [] = (convs, cur)"
    by (cases "detect_loop ms [] []")
  have cat: "concat convs @ cur = ms" using detect_loop_concat [OF st] by simp
  have len: "list_all (\<lambda>seg. 5 \<le> length seg) convs" using detect_loop_min_length [OF st] by simp
  show ?thesis
  proof (cases "5 \<le> length cur")
    case True
    have "detect_conversation_boundaries_conservative ms = convs @ [cur]"
      using False st True by (simp add: detect_conversation_boundaries_conservative_def)
    then show ?thesis using cat len True by (intro exI [of _ "[]"]) simp
  next
    case short: False
    have "detect_conversation_boundaries_conservative ms = convs"
      using False st short by (simp add: detect_conversation_boundaries_conservative_def)
    then show ?thesis using cat len short by (intro exI [of _ cur]) simp
  qed
qed

text \<open>For \<open>ex10\<close> the detector returns one segment, the first seven messages; the
  remainder is the last three.\<close>

theorem segments_are_a_prefix_witness:
  "detect_conversation_boundaries_conservative ex10 = [take 7 ex10]
   \<and> (\<exists>r. length r < 5 \<and> concat [take 7 ex10] @ r = ex10)"
proof -
  have "\<exists>r. length r < 5 \<and> concat [take 7 ex10] @ r = ex10"
    using segments_are_a_prefix [of ex10] unfolding ex10_detect by blast
  then show ?thesis using ex10_detect by simp
qed

section \<open>Verification: overlap windower\<close>

lemma py_slice_window:
  "i \<le> length xs \<Longrightarrow> py_slice xs (int i) (int i + 40) = take 40 (drop i xs)"
  by (simp add: py_slice_def py_clip_def nat_add_distrib min_def)

lemma map_upt_shift:
  "map f [0..<Suc n] = f 0 # map (\<lambda>k. f (Suc k)) [0..<n]"
  by (simp only: upt_conv_Cons [of 0 "Suc n"] map_Suc_upt [symmetric] list.map map_map comp_def)

lemma window_count_step:
  "i + 5 \<le> N \<Longrightarrow> window_count N i = Suc (window_count N (i + 25))"
  by (auto simp: window_count_def div_if [of "N - 5 - i" 25] diff_diff_eq)

lemma window_count_done:
  "\<not> i + 5 \<le> N \<Longrightarrow> window_count N (i + 25) = 0"
  by (auto simp: window_count_def)

lemma chunks_loop_windows:
  "chunks_loop ms 40 25 (int i) acc =
     acc @ map (\<lambda>k. take 40 (drop (i + 25 * k) ms)) [0..<window_count (length ms) i]"
proof (induction "length ms - i" arbitrary: i acc rule: less_induct)
  case less
  show ?case
  proof (cases "i < length ms")
    case False
    then show ?thesis by (subst chunks_loop.simps) (simp add: window_count_def)
  next
    case True
    let ?chunk = "take 40 (drop i ms)"
    let ?acc' = "if 5 \<le> length ?chunk then acc @ [?chunk] else acc"
    have unfold: "chunks_loop ms 40 25 (int i) acc = chunks_loop ms 40 25 (int (i + 25)) ?acc'"
      using True py_slice_window [of i ms]
      by (subst chunks_loop.simps) (simp add: Let_def add.commute)
    have IH: "chunks_loop ms 40 25 (int (i + 25)) ?acc' =
       ?acc' @ map (\<lambda>k. take 40 (drop (i + 25 + 25 * k) ms)) [0..<window_count (length ms) (i + 25)]"
      using less [of "i + 25" ?acc'] True by simp
    show ?thesis
    proof (cases "i + 5 \<le> length ms")
      case True
      then have "5 \<le> length ?chunk" by simp
      then show ?thesis
        unfolding unfold IH window_count_step [OF True] map_upt_shift
        by (simp add: add.assoc)
    next
      case False
      then have "\<not> 5 \<le> length ?chunk" by simp
      then show ?thesis
        unfolding unfold IH using window_count_done [OF False] by (simp add: window_count_def)
    qed
  qed
qed

lemma create_overlapping_chunks_windows:
  "create_overlapping_chunks ms 40 15 =
     Inr (map (\<lambda>k. take 40 (drop (25 * k) ms)) [0..<window_count (length ms) 0])"
  using chunks_loop_windows [of ms 0 "[]"]
  by (auto simp: create_overlapping_chunks_def window_count_def)

text \<open>
  C4 (as amended). With \<open>size = 40\<close> and \<open>overlap = 15\<close> the windower never raises and
  returns, for a list of \<open>N\<close> messages, the windows that start at 0, 25, 50, ... and
  hold at least 5 messages, each the next 40 messages clipped to the end of the
  list: none when \<open>N < 5\<close>, and \<open>(N - 5) div 25 + 1\<close> of them otherwise.
\<close>

theorem overlap_window_count:
  "create_overlapping_chunks ms 40 15 =
     Inr (map (\<lambda>k. take 40 (drop (25 * k) ms))
            [0..<(if length ms < 5 then 0 else (length ms - 5) div 25 + 1)])"
  using chunks_loop_windows [of ms 0 "[]"]
  by (auto simp: create_overlapping_chunks_def window_count_def)

text \<open>For \<open>N = 100\<close> the windower emits 4 windows.\<close>

theorem overlap_window_count_witness:
  "map_sum id length
     (create_overlapping_chunks (map (mk_msg ''Ana'' ''15/03/2023, 14:30'') [0..<100]) 40 15) = Inr 4"
  using overlap_window_count [of "map (mk_msg ''Ana'' ''15/03/2023, 14:30'') [0..<100]"]
  by simp

text \<open>For \<open>N = 5\<close> the windower emits one window, where the formula of the
  specification, \<open>ceil (max 0 (N - 15) / 25)\<close>, gives none.\<close>

theorem overlap_window_count_counterexample:
  "map_sum id length
     (create_overlapping_chunks (map (mk_msg ''Ana'' ''15/03/2023, 14:30'') [0..<5]) 40 15) = Inr 1
   \<and> spec_window_count 5 = 0"
  by (simp add: create_overlapping_chunks_def chunks_loop.simps py_slice_def py_clip_def Let_def
      spec_window_count_def)

section \<open>Verification: coverage of the two partitionings\<close>

lemma window_covers:
  assumes "5 \<le> length ms" "i < length ms"
  shows "\<exists>k < window_count (length ms) 0.
           25 * k \<le> i \<and> i < 25 * k + length (take 40 (drop (25 * k) ms))"
proof -
  define n where "n = window_count (length ms) 0"
  define k where "k = min (i div 25) (n - 1)"
  have n: "n = (length ms - 5) div 25 + 1" using assms by (simp add: n_def window_count_def)
  have k_lt: "k < n" using n by (simp add: k_def)
  have lo: "25 * k \<le> i" unfolding k_def by arith
  have hi: "i < 25 * k + 40"
  proof (cases "i div 25 \<le> n - 1")
    case True
    then have "k = i div 25" by (simp add: k_def)
    then show ?thesis by simp
  next
    case False
    then have k: "k = (length ms - 5) div 25" using n by (simp add: k_def)
    have "length ms - 5 < 25 * ((length ms - 5) div 25) + 25" by arith
    then have "i < 25 * ((length ms - 5) div 25) + 40" using assms by arith
    then show ?thesis unfolding k .
  qed
  have "length (take 40 (drop (25 * k) ms)) = min 40 (length ms - 25 * k)" by (simp add: min.commute)
  then have "i < 25 * k + length (take 40 (drop (25 * k) ms))" using hi assms lo by simp
  then show ?thesis using k_lt lo unfolding n_def by blast
qed

lemma detect_remainder:
  "\<exists>r. length r < 5 \<and> concat (detect_conversation_boundaries_conservative ms) @ r = ms"
proof (cases "ms = []")
  case True
  then show ?thesis by (simp add: detect_conversation_boundaries_conservative_def)
next
  case False
  obtain convs cur where st: "detect_loop ms [] [] = (convs, cur)"
    by (cases "detect_loop ms [] []")
  have cat: "concat convs @ cur = ms" using detect_loop_concat [OF st] by simp
  show ?thesis
  proof (cases "5 \<le> length cur")
    case True
    then show ?thesis using False st cat
      by (intro exI [of _ "[]"]) (simp add: detect_conversation_boundaries_conservative_def)
  next
    case short: False
    then show ?thesis using False st cat
      by (intro exI [of _ cur]) (simp add: detect_conversation_boundaries_conservative_def)
  qed
qed

text \<open>
  C3. For every normalized stream \<open>ms\<close> there are two trailing groups, \<open>r_seg\<close> for the
  boundary detector and \<open>r_win\<close> for the windower (sizes 40 and 15), each of fewer
  than 5 messages, such that the segments are exactly the messages before \<open>r_seg\<close>
  and every position before \<open>r_win\<close> lies in a window: each message is in a segment
  or in a window unless it is in the trailing group of both.
\<close>

theorem every_message_covered:
  "\<exists>(r_seg :: msg list) (r_win :: msg list) ws.
      length r_seg < 5 \<and> length r_win < 5
      \<and> concat (detect_conversation_boundaries_conservative ms) @ r_seg = ms
      \<and> create_overlapping_chunks ms 40 15 = Inr ws
      \<and> (\<forall>i < length ms - length r_win.
            \<exists>k < length ws. ws ! k = take 40 (drop (25 * k) ms)
                           \<and> 25 * k \<le> i \<and> i < 25 * k + length (ws ! k))"
proof -
  obtain r_seg where seg: "length r_seg < 5"
      "concat (detect_conversation_boundaries_conservative ms) @ r_seg = ms"
    using detect_remainder [of ms] by blast
  define ws where "ws = map (\<lambda>k. take 40 (drop (25 * k) ms)) [0..<window_count (length ms) 0]"
  have win: "create_overlapping_chunks ms 40 15 = Inr ws"
    unfolding ws_def by (rule create_overlapping_chunks_windows)
  have nth: "ws ! k = take 40 (drop (25 * k) ms)" if "k < length ws" for k
    using that by (simp add: ws_def)
  show ?thesis
  proof (cases "length ms < 5")
    case True
    then show ?thesis using seg win
      by - (rule exI [of _ r_seg], rule exI [of _ ms], rule exI [of _ ws], simp)
  next
    case False
    have "\<exists>k < length ws. ws ! k = take 40 (drop (25 * k) ms)
             \<and> 25 * k \<le> i \<and> i < 25 * k + length (ws ! k)" if i_lt: "i < length ms" for i
    proof -
      obtain k where k: "k < window_count (length ms) 0" "25 * k \<le> i"
          "i < 25 * k + length (take 40 (drop (25 * k) ms))"
        using window_covers [of ms i] False i_lt by auto
      have "k < length ws" using k(1) by (simp add: ws_def)
      then show ?thesis using k nth by auto
    qed
    then show ?thesis using seg win
      by - (rule exI [of _ r_seg], rule exI [of _ "[]"], rule exI [of _ ws], simp)
  qed
qed

text \<open>For \<open>ex10\<close> the detector leaves the last three messages out and the one window
  holds all ten.\<close>

theorem every_message_covered_witness:
  "detect_conversation_boundaries_conservative ex10 = [take 7 ex10]
   \<and> create_overlapping_chunks ex10 40 15 = Inr [ex10]
   \<and> (\<exists>(r_seg :: msg list) (r_win :: msg list) ws.
      length r_seg < 5 \<and> length r_win < 5
      \<and> concat (detect_conversation_boundaries_conservative ex10) @ r_seg = ex10
      \<and> create_overlapping_chunks ex10 40 15 = Inr ws
      \<and> (\<forall>i < length ex10 - length r_win.
            \<exists>k < length ws. ws ! k = take 40 (drop (25 * k) ex10)
                           \<and> 25 * k \<le> i \<and> i < 25 * k + length (ws ! k)))"
proof -
  have win: "create_overlapping_chunks ex10 40 15 = Inr [ex10]"
    by (simp add: create_overlapping_chunks_windows window_count_def ex10_def)
  show ?thesis using every_message_covered [of ex10] ex10_detect win by blast
qed

section \<open>Verification: keyword extractor\<close>

lemma incr_all:
  "list_all (\<lambda>kv. Q (fst kv)) kvs \<Longrightarrow> Q w \<Longrightarrow> list_all (\<lambda>kv. Q (fst kv)) (incr w kvs)"
  by (induction kvs) auto

lemma count_words_keys:
  "list_all (\<lambda>kv. fst kv \<notin> set stopwords \<and> 2 < length (fst kv)) word_count
   \<Longrightarrow> list_all (\<lambda>kv. fst kv \<notin> set stopwords \<and> 2 < length (fst kv))
         (count_words words word_count)"
proof (induction words arbitrary: word_count)
  case Nil
  then show ?case by simp
next
  case (Cons word words)
  show ?case
  proof (cases "2 < length word \<and> word \<notin> set stopwords")
    case True
    have "list_all (\<lambda>kv. fst kv \<notin> set stopwords \<and> 2 < length (fst kv)) (incr word word_count)"
      using Cons.prems True by (intro incr_all) simp_all
    then show ?thesis using Cons.IH True by simp
  next
    case False
    then show ?thesis using Cons by auto
  qed
qed

lemma keywords_example:
  "extract_keywords ''Casa bola casa BOLA gato bola de um'' = [''bola'', ''casa'', ''gato'']"
  by (simp add: kw_eval)

text \<open>
  C6 (as amended). No keyword returned by the extractor is in the stoplist or has
  2 characters or fewer. For the input \<^verbatim>\<open>eu vou e ele tambem\<close> the result is the one
  keyword \<^verbatim>\<open>tambem\<close>: the stoplist has the accented word (with \<open>0xE9\<close>), for which
  the result is empty.
\<close>

theorem keywords_exclude_stoplist:
  "list_all (\<lambda>w. w \<notin> set stopwords \<and> 2 < length w) (extract_keywords text)
   \<and> extract_keywords ''eu vou e ele tambem'' = [''tambem'']
   \<and> extract_keywords (''eu vou e ele tamb'' @ [CHR 0xE9] @ ''m'') = []"
proof -
  have "list_all (\<lambda>kv. fst kv \<notin> set stopwords \<and> 2 < length (fst kv))
          (count_words (findall_words (py_lower text) []) [])"
    by (rule count_words_keys) simp
  then have all: "list_all (\<lambda>w. w \<notin> set stopwords \<and> 2 < length w) (extract_keywords text)"
    by (simp add: extract_keywords_def Let_def list_all_iff)
  have plain: "extract_keywords ''eu vou e ele tambem'' = [''tambem'']"
    by (simp add: kw_eval)
  have accent: "extract_keywords (''eu vou e ele tamb'' @ [CHR 0xE9] @ ''m'') = []"
    by (simp add: kw_eval)
  from all plain accent show ?thesis by simp
qed

text \<open>Three keywords by falling count; the stopwords \<^verbatim>\<open>de\<close> and \<^verbatim>\<open>um\<close> are left
  out.\<close>

theorem keywords_exclude_stoplist_witness:
  "extract_keywords ''Casa bola casa BOLA gato bola de um'' = [''bola'', ''casa'', ''gato'']
   \<and> list_all (\<lambda>w. w \<notin> set stopwords \<and> 2 < length w) [''bola'', ''casa'', ''gato'']"
  using keywords_exclude_stoplist [of "''Casa bola casa BOLA gato bola de um''"]
  unfolding keywords_example by simp

text \<open>The input of the specification's example yields a keyword.\<close>

theorem keywords_exclude_stoplist_counterexample:
  "extract_keywords ''eu vou e ele tambem'' \<noteq> []"
  by (simp add: kw_eval)

section \<open>Verification: message normalizer\<close>

lemma of_char_lt_256: "(of_char c :: nat) < 256"
proof -
  have "(of_char c :: nat) = of_char (char_of (of_char c :: nat))" by simp
  also have "\<dots> = (of_char c :: nat) mod 256" by (simp only: of_char_of)
  finally have "(of_char c :: nat) = (of_char c :: nat) mod 256" .
  then show ?thesis by (metis mod_less_divisor zero_less_numeral)
qed

lemma py_isspace_lower: "py_isspace (py_lower_char c) = py_isspace c"
  using of_char_lt_256 [of c]
  by (auto simp: py_isspace_def py_lower_char_def Let_def)

lemma dropWhile_space_lower:
  "dropWhile py_isspace (map py_lower_char s) = map py_lower_char (dropWhile py_isspace s)"
  by (induction s) (auto simp: py_isspace_lower)

text \<open>Trimming and lowercasing commute: the code lowercases first, the
  specification trims first.\<close>

lemma strip_lower: "py_strip (py_lower s) = py_lower (py_strip s)"
  by (simp add: py_strip_def py_lower_def dropWhile_space_lower rev_map)

lemma length_lower: "length (py_lower s) = length s"
  by (simp add: py_lower_def)

lemma filter_loop_valid:
  "v \<in> set (valid_messages (filter_loop items i st)) \<Longrightarrow>
     v \<in> set (valid_messages st) \<or>
     (\<exists>k < length items. index v = i + k
        \<and> original_message v = py_strip (dict_get (item_message (items ! k)) [])
        \<and> \<not> is_system_message (py_strip (dict_get (item_message (items ! k)) []))
        \<and> 1 \<le> length (py_strip (dict_get (item_message (items ! k)) [])))"
proof (induction items arbitrary: i st)
  case Nil
  then show ?case by simp
next
  case (Cons item items)
  let ?m = "py_strip (dict_get (item_message item) [])"
  show ?case
  proof (cases "length ?m < 1 \<or> is_system_message ?m")
    case True
    define st' where "st' = (if length ?m < 1 then st\<lparr>empty_count := empty_count st + 1\<rparr>
                             else st\<lparr>system_count := system_count st + 1\<rparr>)"
    have st': "filter_loop (item # items) i st = filter_loop items (Suc i) st'"
        "valid_messages st' = valid_messages st"
      using True by (auto simp: Let_def st'_def)
    from Cons.IH [of "Suc i" st'] Cons.prems st'
    consider "v \<in> set (valid_messages st)"
      | k where "k < length items" "index v = Suc i + k"
          "original_message v = py_strip (dict_get (item_message (items ! k)) [])"
          "\<not> is_system_message (py_strip (dict_get (item_message (items ! k)) []))"
          "1 \<le> length (py_strip (dict_get (item_message (items ! k)) []))"
      by auto
    then show ?thesis
    proof cases
      case 1
      then show ?thesis by simp
    next
      case 2
      then show ?thesis by (intro disjI2 exI [of _ "Suc k"]) simp
    qed
  next
    case False
    define new where "new = \<lparr>author = dict_get (item_author item) ''Desconhecido'',
          message = clean_message ?m, original_message = ?m,
          timestamp = dict_get (item_timestamp item) [], index = i\<rparr>"
    have step: "filter_loop (item # items) i st =
        filter_loop items (Suc i) (st\<lparr>valid_messages := valid_messages st @ [new]\<rparr>)"
      using False by (simp add: Let_def new_def)
    from Cons.IH [of "Suc i" "st\<lparr>valid_messages := valid_messages st @ [new]\<rparr>"] Cons.prems step
    consider "v \<in> set (valid_messages st)" | "v = new"
      | k where "k < length items" "index v = Suc i + k"
          "original_message v = py_strip (dict_get (item_message (items ! k)) [])"
          "\<not> is_system_message (py_strip (dict_get (item_message (items ! k)) []))"
          "1 \<le> length (py_strip (dict_get (item_message (items ! k)) []))"
      by auto
    then show ?thesis
    proof cases
      case 1
      then show ?thesis by simp
    next
      case 2
      then show ?thesis using False
        by (intro disjI2 exI [of _ 0]) (simp add: new_def Suc_le_eq)
    next
      case 3
      then show ?thesis by (intro disjI2 exI [of _ "Suc k"]) simp
    qed
  qed
qed

lemma simple_accepted_valid:
  "v \<in> set (simple_accepted items i) \<Longrightarrow>
     (\<exists>k < length items. index v = i + k
        \<and> \<not> simple_skips (py_strip (dict_get (item_message (items ! k)) [])))"
proof (induction items arbitrary: i)
  case Nil
  then show ?case by simp
next
  case (Cons item items)
  let ?m = "py_strip (dict_get (item_message item) [])"
  from Cons.prems consider "\<not> simple_skips ?m" "index v = i"
    | "v \<in> set (simple_accepted items (Suc i))"
    by (auto simp: Let_def split: if_splits)
  then show ?case
  proof cases
    case 1
    then show ?thesis by (intro exI [of _ 0]) simp
  next
    case 2
    from Cons.IH [OF 2] obtain k where "k < length items" "index v = Suc i + k"
      "\<not> simple_skips (py_strip (dict_get (item_message (items ! k)) []))" by auto
    then show ?thesis by (intro exI [of _ "Suc k"]) simp
  qed
qed

lemma conservative_drops:
  assumes "i < length data"
    and "is_system_message (py_strip (dict_get (item_message (data ! i)) []))"
  shows "i \<notin> index ` set (valid_messages (filter_messages data))"
proof
  assume "i \<in> index ` set (valid_messages (filter_messages data))"
  then obtain v where v: "v \<in> set (valid_messages (filter_messages data))" "index v = i" by auto
  from filter_loop_valid [of v data 0 "\<lparr>valid_messages = [], system_count = 0, empty_count = 0\<rparr>"] v(1)
  obtain k where "index v = k" "\<not> is_system_message (py_strip (dict_get (item_message (data ! k)) []))"
    by (auto simp: filter_messages_def)
  with v(2) assms(2) show False by simp
qed

lemma simple_drops:
  assumes "i < length data"
    and "simple_skips (py_strip (dict_get (item_message (data ! i)) []))"
  shows "i \<notin> index ` set (simple_accepted data 0)"
proof
  assume "i \<in> index ` set (simple_accepted data 0)"
  then obtain v where v: "v \<in> set (simple_accepted data 0)" "index v = i" by auto
  from simple_accepted_valid [OF v(1)]
  obtain k where "index v = k" "\<not> simple_skips (py_strip (dict_get (item_message (data ! k)) []))"
    by auto
  with v(2) assms(2) show False by simp
qed

lemma listed_is_system:
  assumes "(\<exists>p \<in> set system_messages. py_lower (py_strip m) = p \<or> py_startswith (py_lower (py_strip m)) p)
           \<or> (\<exists>p \<in> set system_patterns. re_match p (py_lower (py_strip m)))"
  shows "is_system_message m"
  using assms unfolding is_system_message_def Let_def strip_lower by auto

lemma apagada_system:
  assumes "py_lower m = ''mensagem apagada''"
  shows "is_system_message m"
proof -
  have ne: "m \<noteq> []" using assms by (auto simp: py_lower_def)
  have low: "py_strip (py_lower m) = ''mensagem apagada''"
    unfolding assms by (simp add: py_strip_def py_isspace_def)
  have "length (py_strip m) = length (py_lower (py_strip m))" by (simp add: length_lower)
  also have "\<dots> = length (py_strip (py_lower m))" by (simp add: strip_lower)
  finally have len: "length (py_strip m) = 16" unfolding low by simp
  show ?thesis using ne len low
    by (simp add: is_system_message_def Let_def system_messages_def)
qed

lemma apagada_simple:
  assumes "py_lower m = ''mensagem apagada''"
  shows "simple_skips m"
proof -
  have "length m = length (py_lower m)" by (simp add: length_lower)
  then have len: "length m = 16" unfolding assms by simp
  show ?thesis using len
    by (simp add: simple_skips_def assms simple_system_messages_def py_startswith_def)
qed

lemma media_simple:
  assumes "py_lower m = ''<media omitted>''"
  shows "simple_skips m"
proof -
  have "length m = length (py_lower m)" by (simp add: length_lower)
  then have len: "length m = 15" unfolding assms by simp
  show ?thesis using len
    by (simp add: simple_skips_def assms simple_system_messages_def py_startswith_def)
qed

lemma media_not_system: "\<not> is_system_message ''<Media omitted>''"
  by (simp add: sys_eval)

lemma oi_not_system: "\<not> is_system_message ''oi''"
  by (simp add: sys_eval)

lemma oi_simple: "simple_skips ''oi''"
  by (simp add: simple_skips_def)

lemmas norm_eval = filter_messages_def mk_item_def dict_get_def clean_message_def is_control_def
  simple_skips_def simple_system_messages_def

lemma ex_items_conservative:
  "map original_message (valid_messages (filter_messages ex_items)) =
     [''<Media omitted>'', ''oi'', ''bom dia pessoal'']"
  by (simp add: ex_items_def norm_eval sys_eval)

lemma ex_items_simple:
  "map original_message (simple_accepted ex_items 0) = [''bom dia pessoal'']"
  by (simp add: ex_items_def norm_eval sys_eval)

text \<open>
  C7 (as amended). The conservative normalizer (\<^verbatim>\<open>teste.py\<close>, minimum length 1)
  drops the record at position \<open>i\<close> when its trimmed message is classified as a
  system message, and a message is classified so when, trimmed and lowercased, it
  equals or starts with a phrase of the list or matches one of the patterns. The
  simple normalizer (\<^verbatim>\<open>rag.py\<close>, minimum length 3) drops the record when its
  trimmed message is shorter than 3 or holds one of its six phrases. In any
  letter case \<^verbatim>\<open>mensagem apagada\<close> is dropped by both. \<^verbatim>\<open><Media omitted>\<close> is dropped,
  in any letter case, by the simple normalizer, and kept by the conservative
  classifier. \<^verbatim>\<open>oi\<close> is kept by the conservative classifier and dropped by the
  simple one.
\<close>

theorem system_messages_dropped:
  "(i < length data \<and> is_system_message (py_strip (dict_get (item_message (data ! i)) []))
      \<longrightarrow> i \<notin> index ` set (valid_messages (filter_messages data)))
   \<and> ((\<exists>p \<in> set system_messages. py_lower (py_strip m) = p \<or> py_startswith (py_lower (py_strip m)) p)
        \<or> (\<exists>p \<in> set system_patterns. re_match p (py_lower (py_strip m)))
      \<longrightarrow> is_system_message m)
   \<and> (i < length data \<and> simple_skips (py_strip (dict_get (item_message (data ! i)) []))
      \<longrightarrow> i \<notin> index ` set (simple_accepted data 0))
   \<and> (py_lower m' = ''mensagem apagada'' \<longrightarrow> is_system_message m' \<and> simple_skips m')
   \<and> (py_lower m' = ''<media omitted>'' \<longrightarrow> simple_skips m')
   \<and> \<not> is_system_message ''<Media omitted>''
   \<and> \<not> is_system_message ''oi'' \<and> simple_skips ''oi''"
  using conservative_drops [of i data] listed_is_system [of m] simple_drops [of i data]
    apagada_system [of m'] apagada_simple [of m'] media_simple [of m']
    media_not_system oi_not_system oi_simple
  by blast

text \<open>On \<open>ex_items\<close> the conservative normalizer keeps the media placeholder, \<^verbatim>\<open>oi\<close>
  and the ordinary message, and the simple one keeps the ordinary message only;
  the record at position 0, \<^verbatim>\<open>Mensagem Apagada\<close>, is dropped by both.\<close>

theorem system_messages_dropped_witness:
  "map original_message (valid_messages (filter_messages ex_items)) =
     [''<Media omitted>'', ''oi'', ''bom dia pessoal'']
   \<and> map original_message (simple_accepted ex_items 0) = [''bom dia pessoal'']
   \<and> is_system_message ''Mensagem Apagada'' \<and> simple_skips ''Mensagem Apagada''
   \<and> 0 \<notin> index ` set (valid_messages (filter_messages ex_items))
   \<and> 0 \<notin> index ` set (simple_accepted ex_items 0)"
proof -
  have low: "py_lower ''Mensagem Apagada'' = ''mensagem apagada''"
    by (simp add: py_lower_def py_lower_char_def char_of_eq_iff)
  have trim: "py_strip (dict_get (item_message (ex_items ! 0)) []) = ''Mensagem Apagada''"
    by (simp add: ex_items_def mk_item_def dict_get_def py_strip_def py_isspace_def)
  have len: "0 < length ex_items" by (simp add: ex_items_def)
  have cls: "is_system_message ''Mensagem Apagada'' \<and> simple_skips ''Mensagem Apagada''"
    using system_messages_dropped [of 0 ex_items "''Mensagem Apagada''" "''Mensagem Apagada''"] low
    by simp
  have "0 \<notin> index ` set (valid_messages (filter_messages ex_items))
        \<and> 0 \<notin> index ` set (simple_accepted ex_items 0)"
    using system_messages_dropped [of 0 ex_items "''Mensagem Apagada''" "''Mensagem Apagada''"]
      cls len unfolding trim by simp
  with cls ex_items_conservative ex_items_simple show ?thesis by simp
qed

text \<open>The conservative normalizer keeps \<^verbatim>\<open><Media omitted>\<close>.\<close>

theorem system_messages_dropped_counterexample:
  "\<not> is_system_message ''<Media omitted>''
   \<and> map original_message (valid_messages (filter_messages [mk_item ''<Media omitted>''])) =
       [''<Media omitted>'']"
  by (simp add: norm_eval sys_eval)

section \<open>Verification: timestamps\<close>

lemma try_formats_none:
  "list_all (\<lambda>fmt. py_strptime s fmt = Inl ValueError) fmts \<Longrightarrow> try_formats s fmts = None"
  by (induction fmts) auto

lemma parse_fallback_none:
  "re_search date_pattern s = None \<or> re_search time_pattern s = None \<Longrightarrow> parse_fallback s = None"
  by (auto simp: parse_fallback_def split: option.splits)

lemma parse_fallback_year:
  assumes "parse_fallback s = Some t"
  shows "100 \<le> year t"
proof -
  from assms obtain y m d H M where
    new: "datetime_new (if y < 100 then y + 2000 else y) m d H M 0 0 = Inr t"
    by (auto simp: parse_fallback_def Let_def split: option.splits sum.splits py_error.splits)
  then have "year t = (if y < 100 then y + 2000 else y)"
    by (auto simp: datetime_new_def split: if_splits)
  then show ?thesis by simp
qed

lemma amanha_formats:
  "list_all (\<lambda>fmt. py_strptime (py_strip ''amanha'') fmt = Inl ValueError) formats"
  by (simp add: rx_eval ts_eval)

lemma amanha_date: "re_search date_pattern ''amanha'' = None"
  by (simp add: rx_eval ts_eval)

text \<open>
  C8 (as amended). \<^verbatim>\<open>15/03/2023, 14:30\<close> parses to 15 March 2023, 14:30, and
  \<^verbatim>\<open>15/03/23, 14:30\<close> to the same instant. A two-digit year that the format
  \<^verbatim>\<open>%d/%m/%y, %H:%M\<close> reads is a year of 2000 up to 68 and of 1900 from 69 on
  (\<^verbatim>\<open>68\<close> gives 2068, \<^verbatim>\<open>69\<close> gives 1969, \<^verbatim>\<open>99\<close> gives 1999); the pattern fallback
  adds 2000 to every year under 100 (\<^verbatim>\<open>15/03/99 14:30\<close>, without the comma, gives
  2099) and so never returns a year under 100. A string for which every format
  raises \<^verbatim>\<open>ValueError\<close> and one of the two fallback patterns is not found gives no
  instant; no exception leaves the function.
\<close>

theorem parse_timestamp_cases:
  "parse_timestamp ''15/03/2023, 14:30'' =
     Some \<lparr>year = 2023, month = 3, day = 15, hour = 14, minute = 30, second = 0, microsecond = 0\<rparr>
   \<and> parse_timestamp ''15/03/23, 14:30'' =
     Some \<lparr>year = 2023, month = 3, day = 15, hour = 14, minute = 30, second = 0, microsecond = 0\<rparr>
   \<and> map_option year (parse_timestamp ''15/03/68, 14:30'') = Some 2068
   \<and> map_option year (parse_timestamp ''15/03/69, 14:30'') = Some 1969
   \<and> map_option year (parse_timestamp ''15/03/99, 14:30'') = Some 1999
   \<and> map_option year (parse_timestamp ''15/03/99 14:30'') = Some 2099
   \<and> (parse_fallback s = Some t \<longrightarrow> 100 \<le> year t)
   \<and> (list_all (\<lambda>fmt. py_strptime (py_strip s) fmt = Inl ValueError) formats
        \<and> (re_search date_pattern s = None \<or> re_search time_pattern s = None)
      \<longrightarrow> parse_timestamp s = None)"
proof -
  have four: "parse_timestamp ''15/03/2023, 14:30'' =
     Some \<lparr>year = 2023, month = 3, day = 15, hour = 14, minute = 30, second = 0, microsecond = 0\<rparr>"
    by (rule parse_15_march)
  have two: "parse_timestamp ''15/03/23, 14:30'' =
     Some \<lparr>year = 2023, month = 3, day = 15, hour = 14, minute = 30, second = 0, microsecond = 0\<rparr>"
    by (simp add: rx_eval ts_eval)
  have y68: "map_option year (parse_timestamp ''15/03/68, 14:30'') = Some 2068"
    by (simp add: rx_eval ts_eval)
  have y69: "map_option year (parse_timestamp ''15/03/69, 14:30'') = Some 1969"
    by (simp add: rx_eval ts_eval)
  have y99: "map_option year (parse_timestamp ''15/03/99, 14:30'') = Some 1999"
    by (simp add: rx_eval ts_eval)
  have f99: "map_option year (parse_timestamp ''15/03/99 14:30'') = Some 2099"
    by (simp add: rx_eval ts_eval)
  have none: "parse_timestamp s = None"
    if "list_all (\<lambda>fmt. py_strptime (py_strip s) fmt = Inl ValueError) formats"
      and "re_search date_pattern s = None \<or> re_search time_pattern s = None"
    using that try_formats_none parse_fallback_none by (simp add: parse_timestamp_def)
  from four two y68 y69 y99 f99 none parse_fallback_year show ?thesis by blast
qed

text \<open>\<^verbatim>\<open>amanha\<close> matches no format and holds no date: no instant.\<close>

theorem parse_timestamp_cases_witness:
  "list_all (\<lambda>fmt. py_strptime (py_strip ''amanha'') fmt = Inl ValueError) formats
   \<and> re_search date_pattern ''amanha'' = None
   \<and> parse_timestamp ''amanha'' = None
   \<and> parse_fallback ''15/03/99 14:30'' =
       Some \<lparr>year = 2099, month = 3, day = 15, hour = 14, minute = 30, second = 0, microsecond = 0\<rparr>"
proof -
  have fb: "parse_fallback ''15/03/99 14:30'' =
       Some \<lparr>year = 2099, month = 3, day = 15, hour = 14, minute = 30, second = 0, microsecond = 0\<rparr>"
    by (simp add: rx_eval ts_eval)
  have "parse_timestamp ''amanha'' = None"
    using parse_timestamp_cases [of "''amanha''"] amanha_formats amanha_date by blast
  with amanha_formats amanha_date fb show ?thesis by simp
qed

text \<open>The two-digit year 99 of \<^verbatim>\<open>15/03/99, 14:30\<close> resolves to 1999, not to 2099.\<close>

theorem parse_timestamp_cases_counterexample:
  "parse_timestamp ''15/03/99, 14:30'' =
     Some \<lparr>year = 1999, month = 3, day = 15, hour = 14, minute = 30, second = 0, microsecond = 0\<rparr>"
  by (simp add: rx_eval ts_eval)

section \<open>Verification: participants\<close>

lemma first_seen_props:
  "distinct seen \<Longrightarrow> distinct (first_seen xs seen) \<and> set (first_seen xs seen) = set seen \<union> set xs"
  by (induction xs arbitrary: seen) auto

lemma last_seen_first_iteration: "set_iteration last_seen_first"
  using first_seen_props [of "[]"] by (simp add: set_iteration_def last_seen_first_def)

text \<open>
  C9 (as amended). Whatever the order in which the set of authors is iterated,
  the participants field is the authors of the segment or window, each one once,
  joined with a comma and a blank. The first-seen order is one of the orders a set
  may have, and then the field is the one the specification describes; the code
  does not fix the order.
\<close>

theorem participants_each_once:
  "(set_iteration set_to_list \<longrightarrow>
      distinct (participants set_to_list conversation)
      \<and> set (participants set_to_list conversation) = author ` set conversation
      \<and> participants_str set_to_list conversation =
          py_join '', '' (participants set_to_list conversation))
   \<and> set_iteration (\<lambda>xs. first_seen xs [])
   \<and> participants_str (\<lambda>xs. first_seen xs []) conversation = spec_participants_str conversation"
proof -
  have "set_iteration (\<lambda>xs. first_seen xs [])"
    using first_seen_props [of "[]"] by (simp add: set_iteration_def)
  then show ?thesis
    by (auto simp: set_iteration_def participants_def participants_str_def spec_participants_str_def)
qed

text \<open>In \<open>ex10\<close> Ana writes before Bia; a set iterated last seen first gives
  \<^verbatim>\<open>Bia, Ana\<close>.\<close>

theorem participants_each_once_witness:
  "set_iteration last_seen_first
   \<and> participants last_seen_first ex10 = [''Bia'', ''Ana'']
   \<and> distinct (participants last_seen_first ex10)
   \<and> participants_str last_seen_first ex10 = ''Bia, Ana''"
proof -
  have p: "participants last_seen_first ex10 = [''Bia'', ''Ana'']"
    by (simp add: participants_def last_seen_first_def ex10_def mk_msg_def)
  have "distinct (participants last_seen_first ex10)
        \<and> participants_str last_seen_first ex10 = py_join '', '' (participants last_seen_first ex10)"
    using participants_each_once [of last_seen_first ex10] last_seen_first_iteration by blast
  then show ?thesis using p last_seen_first_iteration by simp
qed

text \<open>With that iteration order the field is not the first-seen list.\<close>

theorem participants_each_once_counterexample:
  "set_iteration last_seen_first
   \<and> participants_str last_seen_first ex10 = ''Bia, Ana''
   \<and> spec_participants_str ex10 = ''Ana, Bia''"
  using last_seen_first_iteration
  by (simp add: participants_str_def participants_def spec_participants_str_def last_seen_first_def
      ex10_def mk_msg_def)

section \<open>Verification: batched submission\<close>

lemma batch_errors_append: "batch_errors (xs @ ys) = batch_errors xs @ batch_errors ys"
  by (induction xs rule: batch_errors.induct) auto

lemma batch_starts_append: "batch_starts (xs @ ys) = batch_starts xs @ batch_starts ys"
  by (induction xs rule: batch_starts.induct) auto

lemma batch_done_append: "batch_done (xs @ ys) = batch_done xs @ batch_done ys"
  by (induction xs rule: batch_done.induct) auto

text \<open>Whatever the store does, the loop starts every later batch, in order, and
  prints for each one either its progress or its error.\<close>

lemma fold_add_batch_lines:
  "\<exists>db' log. fold (add_batch add_documents docs) [1..<Suc n] (db, log0) = (db', log0 @ log)
      \<and> batch_starts log = [2..<Suc (Suc n)]
      \<and> length (batch_errors log) + length (batch_done log) = n"
proof (induction n)
  case 0
  then show ?case by simp
next
  case (Suc n)
  then obtain db' log where IH:
    "fold (add_batch add_documents docs) [1..<Suc n] (db, log0) = (db', log0 @ log)"
    "batch_starts log = [2..<Suc (Suc n)]"
    "length (batch_errors log) + length (batch_done log) = n"
    by blast
  have upt: "[1..<Suc (Suc n)] = [1..<Suc n] @ [Suc n]" by simp
  obtain db'' r where call:
    "add_documents db' (py_slice docs (int (Suc n * 10)) (int (min (Suc n * 10 + 10) (length docs)))) = (db'', r)"
    by (cases "add_documents db' (py_slice docs (int (Suc n * 10)) (int (min (Suc n * 10 + 10) (length docs))))")
  let ?start = "BatchStart (Suc n + 1) (total_batches docs) (Suc n * 10)
                  (min (Suc n * 10 + 10) (length docs) - 1)"
  define line where "line = (case r of None \<Rightarrow> BatchProgress (Suc n + 1) (total_batches docs)
                                     | Some e \<Rightarrow> BatchError (Suc n + 1) e)"
  have step: "fold (add_batch add_documents docs) [1..<Suc (Suc n)] (db, log0) =
                (db'', log0 @ (log @ [?start, line]))"
    unfolding upt fold_append comp_def IH(1)
    using call by (simp add: add_batch_def Let_def line_def split: option.splits)
  have starts: "batch_starts (log @ [?start, line]) = [2..<Suc (Suc (Suc n))]"
    using IH(2) by (cases r) (simp_all add: batch_starts_append line_def)
  have count: "length (batch_errors (log @ [?start, line])) + length (batch_done (log @ [?start, line])) = Suc n"
    using IH(3) by (cases r) (simp_all add: batch_errors_append batch_done_append line_def)
  from step starts count show ?case by blast
qed

lemma store_documents_lines:
  assumes "from_documents (py_slice docs 0 10) = Inr db"
  shows "\<exists>db' log. store_documents from_documents add_documents docs = (Some db', log)
      \<and> batch_starts log = [2..<Suc (total_batches docs)]
      \<and> length (batch_errors log) + length (batch_done log) = total_batches docs - 1"
proof (cases "total_batches docs")
  case 0
  then show ?thesis using assms by (simp add: store_documents_def Let_def)
next
  case (Suc n)
  let ?log0 = "[Config (length docs) 10 (total_batches docs), FirstBatchStart, FirstBatchCreated]"
  from fold_add_batch_lines [of add_documents docs n db ?log0]
  obtain db' log where
    "fold (add_batch add_documents docs) [1..<Suc n] (db, ?log0) = (db', ?log0 @ log)"
    "batch_starts log = [2..<Suc (Suc n)]"
    "length (batch_errors log) + length (batch_done log) = n"
    by blast
  then show ?thesis using assms Suc
    by (simp add: store_documents_def Let_def batch_starts_append batch_errors_append batch_done_append)
qed

lemma creation_failure_returns_none:
  "from_documents (py_slice docs 0 10) = Inl e \<Longrightarrow>
     store_documents from_documents add_documents docs =
       (None, [Config (length docs) 10 (total_batches docs), FirstBatchStart, CreateError e])"
  by (simp add: store_documents_def Let_def)

lemma fold_add_batch_stub:
  "\<exists>log. fold (add_batch (stub_add k) docs) [1..<Suc n] ([Created b0], log0) =
           (Created b0 # map (stub_call k docs) [1..<Suc n], log)
         \<and> batch_errors log = batch_errors log0 @ (if 2 \<le> k \<and> k \<le> Suc n then [k] else [])"
proof (induction n)
  case 0
  then show ?case by simp
next
  case (Suc n)
  then obtain log where IH:
    "fold (add_batch (stub_add k) docs) [1..<Suc n] ([Created b0], log0) =
           (Created b0 # map (stub_call k docs) [1..<Suc n], log)"
    "batch_errors log = batch_errors log0 @ (if 2 \<le> k \<and> k \<le> Suc n then [k] else [])"
    by blast
  have upt: "[1..<Suc (Suc n)] = [1..<Suc n] @ [Suc n]" by simp
  show ?case
  proof (cases "Suc (Suc n) = k")
    case True
    show ?thesis
      unfolding upt fold_append comp_def IH(1)
      using True IH(2)
      by (auto simp: add_batch_def stub_add_def stub_call_def batch_of_def Let_def batch_errors_append)
  next
    case False
    show ?thesis
      unfolding upt fold_append comp_def IH(1)
      using False IH(2)
      by (auto simp: add_batch_def stub_add_def stub_call_def batch_of_def Let_def batch_errors_append)
  qed
qed

lemma store_documents_stub:
  assumes "docs \<noteq> []"
  shows "\<exists>log. store_documents stub_create (stub_add k) docs =
           (Some (Created (py_slice docs 0 10) # map (stub_call k docs) [1..<total_batches docs]), log)
         \<and> batch_errors log = (if 2 \<le> k \<and> k \<le> total_batches docs then [k] else [])"
proof -
  have "0 < total_batches docs" using assms by (cases docs) (simp_all add: total_batches_def)
  then obtain n where n: "total_batches docs = Suc n" by (cases "total_batches docs") auto
  let ?log0 = "[Config (length docs) 10 (Suc n), FirstBatchStart, FirstBatchCreated :: string log_line]"
  obtain log where
    "fold (add_batch (stub_add k) docs) [1..<Suc n] ([Created (py_slice docs 0 10)], ?log0) =
           (Created (py_slice docs 0 10) # map (stub_call k docs) [1..<Suc n], log)"
    "batch_errors log = batch_errors ?log0 @ (if 2 \<le> k \<and> k \<le> Suc n then [k] else [])"
    using fold_add_batch_stub [of k docs n "py_slice docs 0 10" ?log0] by blast
  then show ?thesis
    by (simp add: store_documents_def stub_create_def n Let_def batch_errors_append)
qed

lemma py_slice_0: "py_slice xs 0 (int b) = take b xs"
  by (simp add: py_slice_def py_clip_def min_def)

lemma five_batches_of_ten:
  assumes "40 < length docs" "length docs \<le> 50"
  shows "store_documents stub_create (stub_add 3) docs =
      (Some [Created (take 10 docs), Added (take 10 (drop 10 docs)), Failed (take 10 (drop 20 docs)),
             Added (take 10 (drop 30 docs)), Added (drop 40 docs)],
       [Config (length docs) 10 5, FirstBatchStart, FirstBatchCreated,
        BatchStart 2 5 10 19, BatchProgress 2 5,
        BatchStart 3 5 20 29, BatchError 3 ''store failure'',
        BatchStart 4 5 30 39, BatchProgress 4 5,
        BatchStart 5 5 40 (length docs - 1), BatchProgress 5 5,
        Finished])"
proof -
  have tb: "total_batches docs = 5" using assms by (simp add: total_batches_def)
  have first: "py_slice docs 0 10 = take 10 docs" using py_slice_0 [of docs 10] by simp
  have b1: "py_slice docs 10 20 = take 10 (drop 10 docs)"
    using assms by (simp add: py_slice_def py_clip_def min_def)
  have b2: "py_slice docs 20 30 = take 10 (drop 20 docs)"
    using assms by (simp add: py_slice_def py_clip_def min_def)
  have b3: "py_slice docs 30 40 = take 10 (drop 30 docs)"
    using assms by (simp add: py_slice_def py_clip_def min_def)
  have b4: "py_slice docs 40 (int (length docs)) = drop 40 docs"
    using assms by (simp add: py_slice_def py_clip_def min_def)
  have upt: "[1..<5] = [1, 2, 3, 4::nat]" by (simp add: upt_rec)
  have m: "min 20 (length docs) = 20" "min 30 (length docs) = 30" "min 40 (length docs) = 40"
    "min 50 (length docs) = length docs"
    using assms by simp_all
  show ?thesis
    unfolding store_documents_def tb first upt
    using b1 b2 b3 b4 m
    by (simp add: stub_create_def add_batch_def stub_add_def tb Let_def)
qed

lemma five_batches_of_five:
  assumes "20 < length docs" "length docs \<le> 25"
  shows "create_vector_database_with_logging stub_create (stub_add 3) docs =
      Inr ([Created (take 5 docs), Added (take 5 (drop 5 docs)), Failed (take 5 (drop 10 docs)),
            Added (take 5 (drop 15 docs)), Added (drop 20 docs)],
           [Starting, FirstLote (length docs div 5 + 1),
            Lote 2 5 (length docs),
            Lote 3 10 (length docs), BatchError 3 ''store failure'',
            Lote 4 15 (length docs),
            Lote 5 20 (length docs),
            Finished])"
proof -
  have n: "(length docs + 4) div 5 = 5" using assms by simp
  have first: "py_slice docs 0 5 = take 5 docs" using py_slice_0 [of docs 5] by simp
  have upt: "[1..<5] = [1, 2, 3, 4::nat]" by (simp add: upt_rec)
  have b1: "py_slice docs 5 10 = take 5 (drop 5 docs)"
    using assms by (simp add: py_slice_def py_clip_def min_def)
  have b2: "py_slice docs 10 15 = take 5 (drop 10 docs)"
    using assms by (simp add: py_slice_def py_clip_def min_def)
  have b3: "py_slice docs 15 20 = take 5 (drop 15 docs)"
    using assms by (simp add: py_slice_def py_clip_def min_def)
  have b4: "py_slice docs 20 25 = drop 20 docs"
    using assms by (simp add: py_slice_def py_clip_def min_def)
  show ?thesis
    unfolding create_vector_database_with_logging_def n first upt
    using b1 b2 b3 b4
    by (simp add: stub_create_def add_batch_at_def stub_add_def Let_def)
qed

lemma stub_general:
  "docs \<noteq> [] \<longrightarrow>
      (\<exists>log. store_documents stub_create (stub_add k) docs =
           (Some (Created (py_slice docs 0 10) # map (stub_call k docs) [1..<total_batches docs]), log)
         \<and> batch_errors log = (if 2 \<le> k \<and> k \<le> total_batches docs then [k] else []))"
  using store_documents_stub [of docs k] by (intro impI)

lemma stub_ten:
  "40 < length docs \<and> length docs \<le> 50 \<longrightarrow>
      (\<exists>calls log. store_documents stub_create (stub_add 3) docs = (Some calls, log)
         \<and> calls = [Created (take 10 docs), Added (take 10 (drop 10 docs)),
                    Failed (take 10 (drop 20 docs)), Added (take 10 (drop 30 docs)),
                    Added (drop 40 docs)]
         \<and> stored calls = take 20 docs @ drop 30 docs
         \<and> batch_errors log = [3]
         \<and> log = [Config (length docs) 10 5, FirstBatchStart, FirstBatchCreated,
                  BatchStart 2 5 10 19, BatchProgress 2 5,
                  BatchStart 3 5 20 29, BatchError 3 ''store failure'',
                  BatchStart 4 5 30 39, BatchProgress 4 5,
                  BatchStart 5 5 40 (length docs - 1), BatchProgress 5 5,
                  Finished])"
proof
  assume len: "40 < length docs \<and> length docs \<le> 50"
  then have l: "40 < length docs" "length docs \<le> 50" by simp_all
  have join: "take 10 docs @ take 10 (drop 10 docs) = take 20 docs"
    using take_add [of 10 10 docs] by simp
  have rest: "take 10 (drop 30 docs) @ drop 40 docs = drop 30 docs"
    using append_take_drop_id [of 10 "drop 30 docs"] by simp
  have st: "stored [Created (take 10 docs), Added (take 10 (drop 10 docs)),
                    Failed (take 10 (drop 20 docs)), Added (take 10 (drop 30 docs)),
                    Added (drop 40 docs)] = take 20 docs @ drop 30 docs"
    using join rest by simp
  show "\<exists>calls log. store_documents stub_create (stub_add 3) docs = (Some calls, log)
         \<and> calls = [Created (take 10 docs), Added (take 10 (drop 10 docs)),
                    Failed (take 10 (drop 20 docs)), Added (take 10 (drop 30 docs)),
                    Added (drop 40 docs)]
         \<and> stored calls = take 20 docs @ drop 30 docs
         \<and> batch_errors log = [3]
         \<and> log = [Config (length docs) 10 5, FirstBatchStart, FirstBatchCreated,
                  BatchStart 2 5 10 19, BatchProgress 2 5,
                  BatchStart 3 5 20 29, BatchError 3 ''store failure'',
                  BatchStart 4 5 30 39, BatchProgress 4 5,
                  BatchStart 5 5 40 (length docs - 1), BatchProgress 5 5,
                  Finished]"
    unfolding five_batches_of_ten [OF l] using st by simp
qed

lemma stub_five:
  "20 < length docs \<and> length docs \<le> 25 \<longrightarrow>
      (\<exists>calls log. create_vector_database_with_logging stub_create (stub_add 3) docs = Inr (calls, log)
         \<and> calls = [Created (take 5 docs), Added (take 5 (drop 5 docs)),
                    Failed (take 5 (drop 10 docs)), Added (take 5 (drop 15 docs)),
                    Added (drop 20 docs)]
         \<and> batch_errors log = [3]
         \<and> log = [Starting, FirstLote (length docs div 5 + 1),
                  Lote 2 5 (length docs),
                  Lote 3 10 (length docs), BatchError 3 ''store failure'',
                  Lote 4 15 (length docs),
                  Lote 5 20 (length docs),
                  Finished])"
  using five_batches_of_five [of docs] by simp

lemma created_then_completes:
  "from_documents (py_slice documents 0 10) = Inr vector_db \<longrightarrow>
      (\<exists>vector_db' log. store_documents from_documents add_documents documents = (Some vector_db', log)
         \<and> batch_starts log = [2..<Suc (total_batches documents)]
         \<and> length (batch_errors log) + length (batch_done log) = total_batches documents - 1)"
  using store_documents_lines [of from_documents documents vector_db add_documents] by (intro impI)

lemma not_created_then_none:
  "from_documents (py_slice documents 0 10) = Inl e \<longrightarrow>
      store_documents from_documents add_documents documents =
        (None, [Config (length documents) 10 (total_batches documents), FirstBatchStart, CreateError e])"
  using creation_failure_returns_none [of from_documents documents e add_documents] by (intro impI)

lemma created_then_no_raise:
  "from_documents (py_slice documents 0 5) = Inr vector_db \<longrightarrow>
      (\<exists>r. create_vector_database_with_logging from_documents add_documents documents = Inr r)"
  by (simp add: create_vector_database_with_logging_def split: prod.splits)

text \<open>
  C5 (as amended). The first batch goes to the creation call and every later batch
  to the append call, in order. When the append of a later batch raises, the error
  is printed and the loop goes on to the next batch: whatever the store does,
  once it is created every later batch is started, each one prints either its
  progress or its error, and neither function raises; when the creation fails,
  \<^verbatim>\<open>teste.py\<close> prints the error and returns \<^verbatim>\<open>None\<close>. For a stub that raises on call
  \<open>k\<close>, the calls it receives are the creation and one append for each later
  batch, the \<open>k\<close>-th one failed, and exactly that batch number is printed as an
  error. With 5 batches and \<open>k = 3\<close> the value returned is the store, which holds
  the documents of the other 4 batches, and the lines printed are the ones listed
  below, one of them the error of batch 3: the functions keep no count of
  failures and neither return nor print a report of documents submitted or of
  batches failed.
\<close>

theorem later_batch_failure_is_skipped:
  "(docs \<noteq> [] \<longrightarrow>
      (\<exists>log. store_documents stub_create (stub_add k) docs =
           (Some (Created (py_slice docs 0 10) # map (stub_call k docs) [1..<total_batches docs]), log)
         \<and> batch_errors log = (if 2 \<le> k \<and> k \<le> total_batches docs then [k] else [])))
   \<and> (40 < length docs \<and> length docs \<le> 50 \<longrightarrow>
      (\<exists>calls log. store_documents stub_create (stub_add 3) docs = (Some calls, log)
         \<and> calls = [Created (take 10 docs), Added (take 10 (drop 10 docs)),
                    Failed (take 10 (drop 20 docs)), Added (take 10 (drop 30 docs)),
                    Added (drop 40 docs)]
         \<and> stored calls = take 20 docs @ drop 30 docs
         \<and> batch_errors log = [3]
         \<and> log = [Config (length docs) 10 5, FirstBatchStart, FirstBatchCreated,
                  BatchStart 2 5 10 19, BatchProgress 2 5,
                  BatchStart 3 5 20 29, BatchError 3 ''store failure'',
                  BatchStart 4 5 30 39, BatchProgress 4 5,
                  BatchStart 5 5 40 (length docs - 1), BatchProgress 5 5,
                  Finished]))
   \<and> (20 < length docs \<and> length docs \<le> 25 \<longrightarrow>
      (\<exists>calls log. create_vector_database_with_logging stub_create (stub_add 3) docs = Inr (calls, log)
         \<and> calls = [Created (take 5 docs), Added (take 5 (drop 5 docs)),
                    Failed (take 5 (drop 10 docs)), Added (take 5 (drop 15 docs)),
                    Added (drop 20 docs)]
         \<and> batch_errors log = [3]
         \<and> log = [Starting, FirstLote (length docs div 5 + 1),
                  Lote 2 5 (length docs),
                  Lote 3 10 (length docs), BatchError 3 ''store failure'',
                  Lote 4 15 (length docs),
                  Lote 5 20 (length docs),
                  Finished]))
   \<and> (from_documents (py_slice documents 0 10) = Inr vector_db \<longrightarrow>
      (\<exists>vector_db' log. store_documents from_documents add_documents documents = (Some vector_db', log)
         \<and> batch_starts log = [2..<Suc (total_batches documents)]
         \<and> length (batch_errors log) + length (batch_done log) = total_batches documents - 1))
   \<and> (from_documents (py_slice documents 0 10) = Inl e \<longrightarrow>
      store_documents from_documents add_documents documents =
        (None, [Config (length documents) 10 (total_batches documents), FirstBatchStart, CreateError e]))
   \<and> (from_documents' (py_slice documents 0 5) = Inr vector_db \<longrightarrow>
      (\<exists>r. create_vector_database_with_logging from_documents' add_documents documents = Inr r))"
  by (intro conjI stub_general stub_ten stub_five created_then_completes not_created_then_none
      created_then_no_raise)

text \<open>Fifty documents, the stub raising on its third call: the store ends with
  documents 0-19 and 30-49, all four later batches are started, batches 2, 4 and
  5 report progress and the one error printed is that of batch 3.\<close>

theorem later_batch_failure_is_skipped_witness:
  "map_option stored (fst (store_documents stub_create (stub_add 3) [0..<50])) = Some ([0..<20] @ [30..<50])
   \<and> batch_errors (snd (store_documents stub_create (stub_add 3) [0..<50])) = [3]
   \<and> batch_starts (snd (store_documents stub_create (stub_add 3) [0..<50])) = [2, 3, 4, 5]
   \<and> batch_done (snd (store_documents stub_create (stub_add 3) [0..<50])) = [2, 4, 5]"
proof -
  have h: "40 < length [0..<50] \<and> length [0..<50] \<le> 50" by simp
  note ten = later_batch_failure_is_skipped [of "[0..<50]" 3, THEN conjunct2, THEN conjunct1]
  from ten h obtain calls log where
    "store_documents stub_create (stub_add 3) [0..<50] = (Some calls, log)"
    "stored calls = take 20 [0..<50] @ drop 30 [0..<50]" "batch_errors log = [3]"
    "log = [Config (length [0..<50]) 10 5, FirstBatchStart, FirstBatchCreated,
                  BatchStart 2 5 10 19, BatchProgress 2 5,
                  BatchStart 3 5 20 29, BatchError 3 ''store failure'',
                  BatchStart 4 5 30 39, BatchProgress 4 5,
                  BatchStart 5 5 40 (length [0..<50] - 1), BatchProgress 5 5,
                  Finished]"
    by blast
  then show ?thesis by simp
qed

text \<open>The whole result for fifty documents and the stub raising on its third
  call: the value returned is the store with the five calls it received, and the
  twelve printed lines are all there is. Nothing in the value or in the lines is
  a count of failed batches or a number of documents submitted (the one document
  count printed is the 50 of the configuration line, not the 40 stored).\<close>

theorem later_batch_failure_is_skipped_counterexample:
  "store_documents stub_create (stub_add 3) [0..<50] =
     (Some [Created [0..<10], Added [10..<20], Failed [20..<30], Added [30..<40], Added [40..<50]],
      [Config 50 10 5, FirstBatchStart, FirstBatchCreated,
       BatchStart 2 5 10 19, BatchProgress 2 5,
       BatchStart 3 5 20 29, BatchError 3 ''store failure'',
       BatchStart 4 5 30 39, BatchProgress 4 5,
       BatchStart 5 5 40 49, BatchProgress 5 5,
       Finished])"
proof -
  have l: "40 < length [0..<50]" "length [0..<50] \<le> 50" by simp_all
  show ?thesis
    unfolding five_batches_of_ten [OF l] by simp
qed

end
